theory Spec2Isabelle
  imports Complex_Main
begin

section \<open>Tensors of the emitted graph\<close>

text \<open>
  The functions of \<^verbatim>\<open>qr_expander.cc\<close> emit a data-flow graph; every handle
  (\<^verbatim>\<open>XlaOp\<close>) has a static shape \<^verbatim>\<open>[..., m, n]\<close>.  The development below gives
  each handle its value: a tensor is a function from its indices to an element.  The leading
  batch dimensions are one index of an arbitrary type \<open>'b\<close>; the minor dimensions are
  natural-number indices, and the static sizes \<open>m\<close>, \<open>n\<close> are passed where an
  operation depends on them (reductions, contractions, clamping).  Elements are real
  numbers, i.e. the arithmetic of the emitted graph is taken to be exact.
\<close>

type_synonym 'b scalar = "'b \<Rightarrow> real"
type_synonym 'b vector = "'b \<Rightarrow> nat \<Rightarrow> real"
type_synonym 'b matrix = "'b \<Rightarrow> nat \<Rightarrow> nat \<Rightarrow> real"

subsection \<open>Operations of the graph builder\<close>

datatype precision = DEFAULT | HIGH | HIGHEST

definition Select :: "bool \<Rightarrow> 'a \<Rightarrow> 'a \<Rightarrow> 'a" where
  \<comment> \<open>Modelled from the spec: the builder's \<^verbatim>\<open>Select\<close> (xla_builder.h), the
      element-wise merge of two branches "with a select" on a predicate.\<close>
  "Select p on_true on_false = (if p then on_true else on_false)"

definition ConvertElementType :: "bool \<Rightarrow> real" where
  \<comment> \<open>Modelled from the spec: the builder's \<^verbatim>\<open>ConvertElementType\<close> (xla_builder.h) of
      a predicate to the floating element type, which turns a mask into 1 and 0.\<close>
  "ConvertElementType p = (if p then 1 else 0)"

definition Reduce_add :: "nat \<Rightarrow> (nat \<Rightarrow> real) \<Rightarrow> real" where
  \<comment> \<open>Modelled from the spec: the builder's \<^verbatim>\<open>Reduce\<close> (xla_builder.h) with initial
      value zero and the scalar addition computation, the "reduction over the last axis" of
      static size \<open>m\<close>.\<close>
  "Reduce_add m f = (\<Sum>i<m. f i)"

definition clamp_index :: "nat \<Rightarrow> nat \<Rightarrow> nat" where
  \<comment> \<open>Modelled from the spec: the start index of a dynamic slice of size 1 (slicing.h,
      \<^verbatim>\<open>DynamicSliceInMinorDims\<close> and \<^verbatim>\<open>DynamicUpdateSliceInMinorDims\<close>) is
      clamped so that the slice lies inside the dimension of static size \<open>d\<close>.\<close>
  "clamp_index d k = min k (d - 1)"

definition BatchDot ::
  "nat \<Rightarrow> 'b matrix \<Rightarrow> bool \<Rightarrow> 'b matrix \<Rightarrow> bool \<Rightarrow> precision \<Rightarrow> 'b matrix" where
  \<comment> \<open>Modelled from the spec: \<^verbatim>\<open>BatchDot\<close> (matrix.h), the batched matrix
      multiplication with optional transposition of either operand; \<open>inner\<close> is the static
      size of the contracted dimension.  The "precision hint passed through to
      matrix-multiplication emission" is the last operand, as in the source; it selects the
      accuracy of the multiplication on the device, so the exact value does not depend on it.
      The precision that each emitted multiplication carries is kept by the definitions
      \<open>\<dots>_dots\<close> below.\<close>
  "BatchDot inner x transpose_x y transpose_y precision =
     (\<lambda>b i j. \<Sum>l<inner. (if transpose_x then x b l i else x b i l) *
                            (if transpose_y then y b j l else y b l j))"

definition IdentityMatrix :: "nat \<Rightarrow> nat \<Rightarrow> nat \<Rightarrow> nat \<Rightarrow> real" where
  \<comment> \<open>Modelled from the spec: \<^verbatim>\<open>IdentityMatrix\<close> (matrix.h), the \<open>m\<close> by \<open>n\<close>
      matrix with ones on the diagonal ("\<open>I\<close>").\<close>
  "IdentityMatrix m n i j = (if i = j then 1 else 0)"

definition DynamicSliceInMinorDims :: "nat \<Rightarrow> 'b matrix \<Rightarrow> nat \<Rightarrow> 'b matrix" where
  \<comment> \<open>Modelled from the spec: \<^verbatim>\<open>DynamicSliceInMinorDims(x, {j}, {1})\<close> (slicing.h), the
      "dynamic-slice" of one column, of shape \<^verbatim>\<open>[..., m, 1]\<close>, out of a tensor whose
      last dimension has static size \<open>n\<close>.\<close>
  "DynamicSliceInMinorDims n x j = (\<lambda>b i c. x b i (clamp_index n j + c))"

definition DynamicUpdateSliceInMinorDims ::
  "nat \<Rightarrow> 'b matrix \<Rightarrow> 'b matrix \<Rightarrow> nat \<Rightarrow> 'b matrix" where
  \<comment> \<open>Modelled from the spec: \<^verbatim>\<open>DynamicUpdateSliceInMinorDims(x, update, {j})\<close>
      (slicing.h), the "dynamic-update-slice" that overwrites one column by an update of shape
      \<^verbatim>\<open>[..., m, 1]\<close>.\<close>
  "DynamicUpdateSliceInMinorDims n x update j =
     (\<lambda>b i c. if clamp_index n j \<le> c \<and> c < clamp_index n j + 1
              then update b i (c - clamp_index n j) else x b i c)"

definition SliceInMinorDims :: "'b matrix \<Rightarrow> nat \<times> nat \<Rightarrow> nat \<times> nat \<Rightarrow> 'b matrix" where
  \<comment> \<open>Modelled from the spec: \<^verbatim>\<open>SliceInMinorDims(x, start, end)\<close> (slicing.h), the static
      slice of the two minor dimensions ("columns \<open>[i, i+k)\<close> of rows \<open>[i, m)\<close>"); the
      limits fix the shape of the result.\<close>
  "SliceInMinorDims x start limit = (\<lambda>b i j. x b (fst start + i) (snd start + j))"

definition UpdateSliceInMinorDims ::
  "'b matrix \<Rightarrow> nat \<times> nat \<Rightarrow> 'b matrix \<Rightarrow> nat \<times> nat \<Rightarrow> 'b matrix" where
  \<comment> \<open>Modelled from the spec: \<^verbatim>\<open>UpdateSliceInMinorDims(x, update, start)\<close> (slicing.h),
      which writes an update of static shape \<open>update_shape\<close> back into \<open>x\<close> at
      \<open>start\<close>.\<close>
  "UpdateSliceInMinorDims x update_shape update start =
     (\<lambda>b i j. if fst start \<le> i \<and> i < fst start + fst update_shape \<and>
                 snd start \<le> j \<and> j < snd start + snd update_shape
              then update b (i - fst start) (j - snd start) else x b i j)"

definition UpperTriangle :: "'b matrix \<Rightarrow> 'b matrix" where
  \<comment> \<open>Modelled from the spec: \<^verbatim>\<open>UpperTriangle\<close> (matrix.h), "the upper triangle of
      \<open>A_work\<close>": entries strictly below the diagonal become zero.\<close>
  "UpperTriangle x = (\<lambda>b i j. if i \<le> j then x b i j else 0)"

definition TriangleMask :: "int \<Rightarrow> nat \<Rightarrow> nat \<Rightarrow> bool" where
  \<comment> \<open>Modelled from the spec: \<^verbatim>\<open>TriangleMask\<close> (matrix.h); with diagonal 0 it
      selects the lower triangle with the diagonal (so that its complement is the "strict upper
      triangle"), with diagonal -1 the "strict lower triangle".\<close>
  "TriangleMask diagonal i j = (int j \<le> int i + diagonal)"

primrec ForEachIndex :: "nat \<Rightarrow> (nat \<Rightarrow> 's \<Rightarrow> 's) \<Rightarrow> 's \<Rightarrow> 's" where
  \<comment> \<open>Modelled from the spec: \<^verbatim>\<open>ForEachIndex\<close> (loops.h), the "fixed-trip-count
      loop" that runs the body for the indices \<open>0, 1, \<dots>, n - 1\<close> in order.\<close>
  "ForEachIndex 0 body_fn values = values"
| "ForEachIndex (Suc n) body_fn values = body_fn n (ForEachIndex n body_fn values)"

section \<open>The reflector builder\<close>

text \<open>
  \<^verbatim>\<open>House(x, k, batch_dims, m, &v, &tau, &beta)\<close>, lines 78 to 121.  Every local
  handle of the function is one definition, in the order of the source; the result is the
  triple \<open>(v, tau, beta)\<close> written through the three output pointers.
\<close>

definition House_alpha :: "'b vector \<Rightarrow> nat \<Rightarrow> nat \<Rightarrow> 'b scalar" where
  \<comment> \<open>line 92: \<^verbatim>\<open>alpha = Reshape(DynamicSliceInMinorDims(x, {k}, {1}), batch_dims)\<close>\<close>
  "House_alpha x k m = (\<lambda>b. x b (clamp_index m k))"

definition House_x_after_k :: "'b vector \<Rightarrow> nat \<Rightarrow> 'b vector" where
  \<comment> \<open>lines 95 to 97: \<^verbatim>\<open>Mul(x, ConvertElementType(Gt(iota, k), type))\<close>\<close>
  "House_x_after_k x k = (let iota = (\<lambda>i::nat. i) in
     (\<lambda>b i. x b i * ConvertElementType (iota i > k)))"

text \<open>
  The value \<open>sigma\<close> is the one on which the selections of lines 106 to 112 branch.  It is an
  exact sum of reals here; the \<^verbatim>\<open>Reduce\<close> of the graph rounds, and can give zero for a tail
  that is not zero.  What depends on the branch taken is therefore stated on this value.
\<close>

definition House_sigma :: "'b vector \<Rightarrow> nat \<Rightarrow> nat \<Rightarrow> 'b scalar" where
  \<comment> \<open>lines 101 and 102: \<^verbatim>\<open>Reduce(x_after_k * x_after_k, zero, add, {minor_dim})\<close>\<close>
  "House_sigma x k m = (let x_after_k = House_x_after_k x k in
     (\<lambda>b. Reduce_add m (\<lambda>i. x_after_k b i * x_after_k b i)))"

definition House_mu :: "'b vector \<Rightarrow> nat \<Rightarrow> nat \<Rightarrow> 'b scalar" where
  \<comment> \<open>line 104: \<^verbatim>\<open>mu = Sqrt(Square(alpha) + sigma)\<close>\<close>
  "House_mu x k m = (let alpha = House_alpha x k m; sigma = House_sigma x k m in
     (\<lambda>b. sqrt ((alpha b)\<^sup>2 + sigma b)))"

definition House_beta :: "'b vector \<Rightarrow> nat \<Rightarrow> nat \<Rightarrow> 'b scalar" where
  \<comment> \<open>lines 106 and 108\<close>
  "House_beta x k m =
    (let zero = (0::real); one = (1::real);
         alpha = House_alpha x k m; sigma = House_sigma x k m; mu = House_mu x k m;
         sigma_is_zero = (\<lambda>b. sigma b = zero)
     in (\<lambda>b. Select (sigma_is_zero b) (alpha b)
                (Select (alpha b < zero) one (- one) * mu b)))"

definition House_tau :: "'b vector \<Rightarrow> nat \<Rightarrow> nat \<Rightarrow> 'b scalar" where
  \<comment> \<open>lines 109 and 110\<close>
  "House_tau x k m =
    (let zero = (0::real);
         alpha = House_alpha x k m; sigma = House_sigma x k m; beta = House_beta x k m;
         sigma_is_zero = (\<lambda>b. sigma b = zero)
     in (\<lambda>b. Select (sigma_is_zero b) zero ((beta b - alpha b) / beta b)))"

definition House_divisor :: "'b vector \<Rightarrow> nat \<Rightarrow> nat \<Rightarrow> 'b scalar" where
  \<comment> \<open>lines 111 and 112\<close>
  "House_divisor x k m =
    (let zero = (0::real); one = (1::real);
         alpha = House_alpha x k m; sigma = House_sigma x k m; beta = House_beta x k m;
         sigma_is_zero = (\<lambda>b. sigma b = zero)
     in (\<lambda>b. Select (sigma_is_zero b) one (alpha b - beta b)))"

definition House_v :: "'b vector \<Rightarrow> nat \<Rightarrow> nat \<Rightarrow> 'b vector" where
  \<comment> \<open>lines 114 to 119: \<^verbatim>\<open>e_k + Div(x_after_k, divisor)\<close>\<close>
  "House_v x k m =
    (let iota = (\<lambda>i::nat. i);
         x_after_k = House_x_after_k x k; divisor = House_divisor x k m;
         e_k = (\<lambda>i. ConvertElementType (iota i = k))
     in (\<lambda>b i. e_k i + x_after_k b i / divisor b))"

definition House :: "'b vector \<Rightarrow> nat \<Rightarrow> nat \<Rightarrow> 'b vector \<times> 'b scalar \<times> 'b scalar" where
  "House x k m = (House_v x k m, House_tau x k m, House_beta x k m)"

section \<open>Shapes and failures\<close>

text \<open>
  A function that returns \<^verbatim>\<open>StatusOr\<close> returns a sum here, \<open>Inl\<close> the failure, and a
  \<^verbatim>\<open>Status\<close> is an \<open>error option\<close>, \<open>None\<close> for \<^verbatim>\<open>Status::OK()\<close>.  Every explicit
  \<^verbatim>\<open>return InvalidArgument(...)\<close> of the source is a branch of its model, with the format
  string and the arguments of the message, and every \<^verbatim>\<open>TF_ASSIGN_OR_RETURN\<close> and
  \<^verbatim>\<open>TF_RETURN_IF_ERROR\<close> is a branch that returns the failure unchanged.
\<close>

datatype primitive_type = PRED | S32 | S64 | F16 | BF16 | F32 | F64 | C64 | C128 | TUPLE

datatype shape =
  Shape (element_type: primitive_type) (dimensions: "int list") (tuple_shapes: "shape list")

definition rank :: "shape \<Rightarrow> nat" where
  "rank s = length (dimensions s)"

definition GetDimension :: "shape \<Rightarrow> int \<Rightarrow> int" where
  \<comment> \<open>Modelled from the spec: \<^verbatim>\<open>ShapeUtil::GetDimension\<close> (shape_util.h); a negative
      dimension number counts from the minor end, so that -2 and -1 are the \<open>m\<close> and \<open>n\<close>
      of a shape \<^verbatim>\<open>[..., m, n]\<close>.\<close>
  "GetDimension s d = dimensions s ! nat (if d < 0 then d + int (rank s) else d)"

datatype format_arg = ShapeArg shape | IntArg int

datatype error =
  InvalidArgument string "format_arg list"
  | Internal string

text \<open>
  The graph builder, \<^verbatim>\<open>XlaBuilder\<close>, is code outside this file.  Its two fallible
  operations that the functions below call are parameters: the shape query
  \<^verbatim>\<open>builder->GetShape(op)\<close> on a handle of a given shape, and the construction
  \<^verbatim>\<open>ForEachIndex(..., name, builder)\<close> of a loop of a given name whose first carried value
  has a given shape.  Each gives the failure it returns, if any; which handles and loops a
  builder refuses (an element type that is not floating, for instance) is its own business.
  A handle is known here by its shape, and the answer of the builder does not depend on the
  operations emitted before.
\<close>

record builder =
  GetShape_failure :: "shape \<Rightarrow> error option"
  ForEachIndex_failure :: "string \<Rightarrow> shape \<Rightarrow> error option"

definition ForEachIndex_status :: "builder \<Rightarrow> string \<Rightarrow> shape \<Rightarrow> error option \<Rightarrow> error option" where
  \<comment> \<open>Modelled from the spec: \<^verbatim>\<open>ForEachIndex\<close> (loops.h) emits the body once while it builds
      the loop; "a sub-builder returns a failure. Propagated unchanged", and otherwise the
      construction of the loop itself may fail.\<close>
  "ForEachIndex_status builder name values_shape body_status =
     (case body_status of
        Some e \<Rightarrow> Some e
      | None \<Rightarrow> ForEachIndex_failure builder name values_shape)"

definition House_status :: "builder \<Rightarrow> shape \<Rightarrow> error option" where
  \<comment> \<open>the \<^verbatim>\<open>Status\<close> that \<^verbatim>\<open>House\<close> returns: line 81,
      \<^verbatim>\<open>TF_ASSIGN_OR_RETURN(Shape x_shape, builder->GetShape(x))\<close>, is its only failure, and
      line 120 returns \<^verbatim>\<open>Status::OK()\<close>\<close>
  "House_status builder x_shape = GetShape_failure builder x_shape"

section \<open>The unblocked panel factorizer\<close>

text \<open>
  The body of the loop of \<^verbatim>\<open>QrBlock\<close>, the lambda \<^verbatim>\<open>qr_body_fn\<close> of lines 170 to
  233; \<open>m\<close> and \<open>n\<close> are the captured static sizes of the panel.
\<close>

definition qr_body_fn ::
  "nat \<Rightarrow> nat \<Rightarrow> precision \<Rightarrow> nat \<Rightarrow> 'b matrix \<times> 'b vector \<Rightarrow> 'b matrix \<times> 'b vector" where
  "qr_body_fn m n precision j values =
    (let a = fst values;
         taus = snd values;
         x = DynamicSliceInMinorDims n a j;
         (v, tau, beta) = House (\<lambda>b i. x b i 0) j m;
         iota_mn = (\<lambda>(i::nat) (c::nat). c);
         v_broadcast = (\<lambda>b (i::nat) l. v b l);
         vva = BatchDot m v_broadcast False
                 (\<lambda>b i c. Select (j < iota_mn i c) (a b i c) 0) False precision;
         vva = BatchDot 1 v_broadcast True vva False precision;
         a = (\<lambda>b i c. a b i c - tau b * vva b i c);
         iota = (\<lambda>i::nat. i);
         predecessor_mask = (\<lambda>i. ConvertElementType (iota i < j));
         mask = (\<lambda>i. ConvertElementType (iota i = j));
         successor_mask = (\<lambda>i. iota i > j);
         new_x = (\<lambda>b i. x b i 0 * predecessor_mask i + beta b * mask i);
         new_x = (\<lambda>b i. new_x b i + Select (successor_mask i) (v b i) 0);
         a = (\<lambda>b i c. Select (iota_mn i c = j) (new_x b i) (a b i c));
         iota_n = (\<lambda>c::nat. c);
         taus_zeros = (\<lambda>b (c::nat). 0::real);
         taus_update = (\<lambda>b c. Select (iota_n c = j) (taus_zeros b c + tau b) (taus_zeros b c));
         taus = (\<lambda>b c. taus b c + taus_update b c)
     in (a, taus))"

definition QrBlock_init :: "'b matrix \<Rightarrow> 'b matrix \<times> 'b vector" where
  \<comment> \<open>lines 235 to 240: the initial values \<^verbatim>\<open>{a, taus}\<close> of the loop, \<^verbatim>\<open>taus\<close> all zero\<close>
  "QrBlock_init a = (a, (\<lambda>b c. 0))"

definition qr_body_fn_status :: "builder \<Rightarrow> shape \<Rightarrow> error option" where
  \<comment> \<open>the failure of the lambda, lines 178 and 179: \<^verbatim>\<open>TF_RETURN_IF_ERROR(House(...))\<close>, for
      the collapsed column of shape \<open>x_shape\<close>\<close>
  "qr_body_fn_status builder x_shape = House_status builder x_shape"

definition qr_body_fn_dots :: "precision \<Rightarrow> precision list" where
  \<comment> \<open>the precision operands of the two \<^verbatim>\<open>BatchDot\<close> of the lambda, lines 193 to 195\<close>
  "qr_body_fn_dots precision = [precision, precision]"

definition QrBlock ::
  "builder \<Rightarrow> shape \<Rightarrow> 'b matrix \<Rightarrow> precision \<Rightarrow> error + 'b matrix \<times> 'b vector" where
  "QrBlock builder a_shape a precision =
    (case GetShape_failure builder a_shape of
       Some e \<Rightarrow> Inl e
     | None \<Rightarrow>
        (let num_dims = int (rank a_shape) in
         if num_dims < 2
         then Inl (InvalidArgument ''Argument to QR must have rank >= 2; got shape %s''
                     [ShapeArg a_shape])
         else
           let type = element_type a_shape;
               m = GetDimension a_shape (- 2);
               n = GetDimension a_shape (- 1);
               batch_dims = take (nat (num_dims - 2)) (dimensions a_shape);
               x_shape = Shape type (batch_dims @ [m]) []
           in case ForEachIndex_status builder ''qr'' a_shape (qr_body_fn_status builder x_shape) of
                Some e \<Rightarrow> Inl e
              | None \<Rightarrow>
                 Inr (ForEachIndex (min (nat m) (nat n)) (qr_body_fn (nat m) (nat n) precision)
                        (QrBlock_init a))))"

definition QrBlock_dots :: "precision \<Rightarrow> precision list" where
  \<comment> \<open>the multiplications of the program that \<^verbatim>\<open>QrBlock\<close> emits: those of the body of its
      loop, which is emitted once\<close>
  "QrBlock_dots precision = qr_body_fn_dots precision"

section \<open>The Compact-WY builder\<close>

definition wy_body_fn ::
  "nat \<Rightarrow> precision \<Rightarrow> nat \<Rightarrow> 'b matrix \<times> 'b matrix \<Rightarrow> 'b matrix \<times> 'b matrix" where
  \<comment> \<open>the lambda \<^verbatim>\<open>body_fn\<close> of lines 273 to 288\<close>
  "wy_body_fn n precision j values =
    (let t = fst values;
         vtv = snd values;
         yv = DynamicSliceInMinorDims n vtv j;
         z = BatchDot n t False yv False precision;
         t = DynamicUpdateSliceInMinorDims n t z j
     in (t, vtv))"

definition CompactWY_init ::
  "'b matrix \<Rightarrow> 'b vector \<Rightarrow> nat \<Rightarrow> nat \<Rightarrow> precision \<Rightarrow> 'b matrix \<times> 'b matrix" where
  \<comment> \<open>lines 290 to 299: the initial values \<^verbatim>\<open>{t, vtv}\<close> of the loop\<close>
  "CompactWY_init vs taus m n precision =
    (let tau_scale = (\<lambda>b (i::nat) j. - taus b j);
         eye = (\<lambda>b. IdentityMatrix n n);
         t = eye;
         vtv = BatchDot m vs True vs False precision;
         vtv = (\<lambda>b i j. Select (TriangleMask 0 i j) 0 (vtv b i j));
         vtv = (\<lambda>b i j. (vtv b i j + eye b i j) * tau_scale b i j)
     in (t, vtv))"

text \<open>
  \<^verbatim>\<open>CompactWYRepresentation\<close>, lines 264 to 304: the value of the handle it returns when it
  does not fail; its failure is \<open>CompactWYRepresentation_status\<close> below.
\<close>

definition CompactWYRepresentation ::
  "'b matrix \<Rightarrow> 'b vector \<Rightarrow> nat \<Rightarrow> nat \<Rightarrow> precision \<Rightarrow> 'b matrix" where
  "CompactWYRepresentation vs taus m n precision =
    (let values = ForEachIndex n (wy_body_fn n precision) (CompactWY_init vs taus m n precision)
     in fst values)"

definition wy_body_fn_dots :: "precision \<Rightarrow> precision list" where
  \<comment> \<open>the precision operand of the \<^verbatim>\<open>BatchDot\<close> of the lambda, line 283\<close>
  "wy_body_fn_dots precision = [precision]"

definition CompactWYRepresentation_status ::
  "builder \<Rightarrow> primitive_type \<Rightarrow> int list \<Rightarrow> int \<Rightarrow> error option" where
  \<comment> \<open>the failure of \<^verbatim>\<open>CompactWYRepresentation\<close>, lines 301 and 302: that of its loop, whose
      body has no failure of its own and whose first carried value \<^verbatim>\<open>t\<close> has the shape
      \<^verbatim>\<open>[..., n, n]\<close>\<close>
  "CompactWYRepresentation_status builder type batch_dims n =
     ForEachIndex_status builder ''wy'' (Shape type (batch_dims @ [n, n]) []) None"

definition CompactWYRepresentation_dots :: "precision \<Rightarrow> precision list" where
  \<comment> \<open>the multiplication of line 297, then that of the body of the loop\<close>
  "CompactWYRepresentation_dots precision = precision # wy_body_fn_dots precision"

section \<open>The block driver\<close>

text \<open>
  One pass through the body of the \<^verbatim>\<open>for\<close> loop of \<^verbatim>\<open>BuildQrDecomposition\<close>, lines
  347 to 380, for the block that starts at \<open>i\<close>.  The loop is unrolled while the graph
  is emitted, so \<open>i\<close> and \<open>k\<close> are integers of the expander like \<open>m\<close>, \<open>n\<close> and
  \<open>block_size\<close>, not values of the graph.
\<close>

definition qr_block_iteration ::
  "builder \<Rightarrow> shape \<Rightarrow> int \<Rightarrow> precision \<Rightarrow> int \<Rightarrow> 'b matrix \<times> 'b matrix \<Rightarrow>
     error + 'b matrix \<times> 'b matrix" where
  "qr_block_iteration builder a_shape block_size precision i aq =
    (let a = fst aq;
         q = snd aq;
         num_dims = int (rank a_shape);
         type = element_type a_shape;
         m = GetDimension a_shape (- 2);
         n = GetDimension a_shape (- 1);
         p = min m n;
         batch_dims = take (nat (num_dims - 2)) (dimensions a_shape);
         k = min block_size (p - i);
         a_block = SliceInMinorDims a (nat i, nat i) (nat m, nat (i + k));
         a_block_shape = Shape type (batch_dims @ [m - i, i + k - i]) []
     in case QrBlock builder a_block_shape a_block precision of
          Inl e \<Rightarrow> Inl e
        | Inr qr_block \<Rightarrow>
           (let qr_block_a = fst qr_block;
                qr_block_taus = snd qr_block;
                y = (\<lambda>b r c. IdentityMatrix (nat (m - i)) (nat k) r c +
                               Select (TriangleMask (- 1) r c) (qr_block_a b r c) 0);
                a = UpdateSliceInMinorDims a (nat (m - i), nat k) qr_block_a (nat i, nat i)
            in case CompactWYRepresentation_status builder type batch_dims k of
                 Some e \<Rightarrow> Inl e
               | None \<Rightarrow>
                  (let t = CompactWYRepresentation y qr_block_taus (nat (m - i)) (nat k) precision;
                       yt = BatchDot (nat k) y False t True precision;
                       a_panel = SliceInMinorDims a (nat i, nat (i + k)) (nat m, nat n);
                       a_update = BatchDot (nat (m - i)) y True a_panel False precision;
                       a_update = BatchDot (nat k) yt False a_update False precision;
                       a_panel = (\<lambda>b r c. a_panel b r c + a_update b r c);
                       a = UpdateSliceInMinorDims a (nat (m - i), nat (n - (i + k))) a_panel
                             (nat i, nat (i + k));
                       q_panel = SliceInMinorDims q (0, nat i) (nat m, nat m);
                       q_update = BatchDot (nat (m - i)) q_panel False y False precision;
                       q_update = BatchDot (nat k) q_update False yt True precision;
                       q_panel = (\<lambda>b r c. q_panel b r c + q_update b r c);
                       q = UpdateSliceInMinorDims q (nat m, nat (m - i)) q_panel (0, nat i)
                   in Inr (a, q))))"

definition qr_block_iteration_dots :: "precision \<Rightarrow> precision list" where
  \<comment> \<open>the multiplications that one pass emits, in the order of the source: those of
      \<^verbatim>\<open>QrBlock\<close> (line 350) and of \<^verbatim>\<open>CompactWYRepresentation\<close> (lines 360 to 362), then
      the five \<^verbatim>\<open>BatchDot\<close> of lines 366, 368, 370, 376 and 377\<close>
  "qr_block_iteration_dots precision =
     QrBlock_dots precision @ CompactWYRepresentation_dots precision @
     [precision, precision, precision, precision, precision]"

text \<open>
  The loop \<^verbatim>\<open>for (int64 i = 0; i < p; i += block_size)\<close> of line 346.  It is entered
  only behind the check of line 334, which is repeated in the loop condition here so that
  the recursion is well founded for every argument.  The integers of the expander are
  unbounded here; \<open>i + block_size\<close> stays far below \<open>2\<^sup>6\<^sup>3\<close> for the sizes of a tensor.
\<close>

function BuildQrDecomposition_loop ::
  "builder \<Rightarrow> shape \<Rightarrow> int \<Rightarrow> precision \<Rightarrow> int \<Rightarrow> 'b matrix \<times> 'b matrix \<Rightarrow>
     error + 'b matrix \<times> 'b matrix" where
  "BuildQrDecomposition_loop builder a_shape block_size precision i aq =
    (if i < min (GetDimension a_shape (- 2)) (GetDimension a_shape (- 1)) \<and> 1 \<le> block_size
     then (case qr_block_iteration builder a_shape block_size precision i aq of
             Inl e \<Rightarrow> Inl e
           | Inr aq' \<Rightarrow>
              BuildQrDecomposition_loop builder a_shape block_size precision (i + block_size) aq')
     else Inr aq)"
  by pat_completeness auto
termination
  by (relation "measure (\<lambda>(builder, a_shape, block_size, precision, i, aq).
        nat (min (GetDimension a_shape (- 2)) (GetDimension a_shape (- 1)) - i))") auto

declare BuildQrDecomposition_loop.simps [simp del]

text \<open>
  The multiplications that the passes of the loop emit: the loop is unrolled, so each pass
  emits its own.  Every \<^verbatim>\<open>BatchDot\<close> of the file receives the \<^verbatim>\<open>precision\<close> argument of the
  driver, so the list holds the precision of every multiplication of the emitted program.
\<close>

function BuildQrDecomposition_dots :: "shape \<Rightarrow> int \<Rightarrow> precision \<Rightarrow> int \<Rightarrow> precision list" where
  "BuildQrDecomposition_dots a_shape block_size precision i =
    (if i < min (GetDimension a_shape (- 2)) (GetDimension a_shape (- 1)) \<and> 1 \<le> block_size
     then qr_block_iteration_dots precision @
          BuildQrDecomposition_dots a_shape block_size precision (i + block_size)
     else [])"
  by pat_completeness auto
termination
  by (relation "measure (\<lambda>(a_shape, block_size, precision, i).
        nat (min (GetDimension a_shape (- 2)) (GetDimension a_shape (- 1)) - i))") auto

declare BuildQrDecomposition_dots.simps [simp del]

text \<open>
  \<^verbatim>\<open>BuildQrDecomposition\<close>, lines 319 to 384.  The handle it returns stands for the emitted
  program: the value of the tuple \<open>(q, UpperTriangle a)\<close> of line 383, and the precisions of
  the multiplications emitted on the way.
\<close>

definition BuildQrDecomposition ::
  "builder \<Rightarrow> shape \<Rightarrow> 'b matrix \<Rightarrow> int \<Rightarrow> precision \<Rightarrow>
     error + ('b matrix \<times> 'b matrix) \<times> precision list" where
  "BuildQrDecomposition builder a_shape a block_size precision =
    (case GetShape_failure builder a_shape of
       Some e \<Rightarrow> Inl e
     | None \<Rightarrow>
        (let num_dims = int (rank a_shape) in
         if num_dims < 2
         then Inl (InvalidArgument ''Arguments to QR must have rank >= 2: got shape %s''
                     [ShapeArg a_shape])
         else
           let type = element_type a_shape;
               m = GetDimension a_shape (- 2);
               n = GetDimension a_shape (- 1);
               p = min m n
           in
           if block_size < 1
           then Inl (InvalidArgument ''block_size argument to QR must be >= 1; got %d''
                       [IntArg block_size])
           else
             let q = (\<lambda>b. IdentityMatrix (nat m) (nat m)) in
             case BuildQrDecomposition_loop builder a_shape block_size precision 0 (a, q) of
               Inl e \<Rightarrow> Inl e
             | Inr aq \<Rightarrow>
                Inr ((snd aq, UpperTriangle (fst aq)),
                     BuildQrDecomposition_dots a_shape block_size precision 0)))"

section \<open>The expansion wrapper\<close>

datatype hlo_opcode = kCustomCall | kCall | kParameter | kOther

datatype hlo_instruction =
  HloInstruction (opcode: hlo_opcode) (custom_call_target: string) (shape: shape)
    (operands: "hlo_instruction list") (to_apply: "nat option")

text \<open>
  A computation of the module is known by its address, a natural number (the index in the
  list of the module's computations); \<open>None\<close> is the null pointer.  Its content is the
  name it was built under and the program that the block driver emitted: the value of its
  root and the precisions of its multiplications.
\<close>

datatype 'b hlo_computation =
  HloComputation (computation_name: string) (root: "'b matrix \<times> 'b matrix")
    (dot_precisions: "precision list")

text \<open>
  The member \<^verbatim>\<open>computation_cache_\<close> of the expander is the field \<open>computation_cache\<close>:
  a key can be absent, present with a null pointer, or present with a computation.
\<close>

record 'b expander_state =
  computation_cache :: "string \<rightharpoonup> nat option"
  module_computations :: "'b hlo_computation list"
  parent_instructions :: "hlo_instruction list"

text \<open>
  The collaborators whose code is elsewhere: the rendering of a shape as a string, the
  builder \<^verbatim>\<open>XlaBuilder builder(name)\<close> made for a sub-program, the value of the parameter of a
  sub-program, and the three fallible steps that turn the emitted graph into a computation
  of the module (\<open>None\<close> is \<^verbatim>\<open>Status::OK\<close>).
\<close>

record 'b externals =
  ShapeToString :: "shape \<Rightarrow> string"
  XlaBuilder :: "string \<Rightarrow> builder"
  Parameter :: "shape \<Rightarrow> 'b matrix"
  Build :: "string \<Rightarrow> shape \<Rightarrow> error option"
  GetProgramShape :: "string \<Rightarrow> shape \<Rightarrow> error option"
  CreateFromProto :: "string \<Rightarrow> shape \<Rightarrow> error option"

definition InstructionMatchesPattern :: "hlo_instruction \<Rightarrow> bool" where
  "InstructionMatchesPattern instruction =
     (opcode instruction = kCustomCall \<and>
      custom_call_target instruction = ''QrDecomposition'')"

definition build_expansion ::
  "'b externals \<Rightarrow> string \<Rightarrow> shape \<Rightarrow> error + 'b hlo_computation" where
  \<comment> \<open>lines 411 to 424, the block "Builds a new expansion" up to the clone\<close>
  "build_expansion ext name operand_shape =
    (let builder = XlaBuilder ext name;
         a = Parameter ext operand_shape in
     case BuildQrDecomposition builder operand_shape a 128 HIGHEST of
       Inl e \<Rightarrow> Inl e
     | Inr l \<Rightarrow>
        (case Build ext name operand_shape of
           Some e \<Rightarrow> Inl e
         | None \<Rightarrow>
            (case GetProgramShape ext name operand_shape of
               Some e \<Rightarrow> Inl e
             | None \<Rightarrow>
                (case CreateFromProto ext name operand_shape of
                   Some e \<Rightarrow> Inl e
                 | None \<Rightarrow> Inr (HloComputation name (fst l) (snd l))))))"

text \<open>
  \<^verbatim>\<open>ExpandInstruction\<close>, lines 391 to 432, as a function from the state of the expander and
  of the module to the result and the new state.  \<^verbatim>\<open>instruction->operand(0)\<close> is the head of
  the operands (a matched node has one operand); \<^verbatim>\<open>emplace(name, nullptr)\<close> inserts a null
  entry when the key is absent and leaves a present entry as it is; \<^verbatim>\<open>AddInstruction\<close>
  appends the call to the instructions of the parent computation.
\<close>

definition ExpandInstruction ::
  "'b externals \<Rightarrow> hlo_instruction \<Rightarrow> 'b expander_state \<Rightarrow>
     (error + hlo_instruction) \<times> 'b expander_state" where
  "ExpandInstruction ext instruction st =
    (let operand_shape = shape (hd (operands instruction));
         name = ''xla.qr_'' @ ShapeToString ext operand_shape;
         st = (case computation_cache st name of
                 None \<Rightarrow> st\<lparr>computation_cache := (computation_cache st)(name \<mapsto> None)\<rparr>
               | Some c \<Rightarrow> st);
         computation = (case computation_cache st name of None \<Rightarrow> None | Some c \<Rightarrow> c)
     in case computation of
          None \<Rightarrow>
           (case build_expansion ext name operand_shape of
              Inl e \<Rightarrow> (Inl e, st)
            | Inr new_computation \<Rightarrow>
               (let computation = length (module_computations st);
                    call = HloInstruction kCall [] (shape instruction) (operands instruction)
                             (Some computation)
                in (Inr call,
                    st\<lparr>module_computations := module_computations st @ [new_computation],
                       computation_cache := (computation_cache st)(name \<mapsto> Some computation),
                       parent_instructions := parent_instructions st @ [call]\<rparr>)))
        | Some computation \<Rightarrow>
           (let call = HloInstruction kCall [] (shape instruction) (operands instruction)
                         (Some computation)
            in (Inr call, st\<lparr>parent_instructions := parent_instructions st @ [call]\<rparr>)))"

section \<open>Notions of the specification\<close>

text \<open>
  The masked tail of a vector ("\<open>x\<close> with elements \<open>0 \<dots> k\<close> masked to zero"), the
  dot product, the sign with the sign of 0 taken as +1, and the unit vector \<open>e\<^sub>k\<close>.
\<close>

definition masked_tail :: "(nat \<Rightarrow> real) \<Rightarrow> nat \<Rightarrow> nat \<Rightarrow> real" where
  "masked_tail x k = (\<lambda>i. if i \<le> k then 0 else x i)"

definition dot :: "nat \<Rightarrow> (nat \<Rightarrow> real) \<Rightarrow> (nat \<Rightarrow> real) \<Rightarrow> real" where
  "dot m u w = (\<Sum>i<m. u i * w i)"

definition sign_of :: "real \<Rightarrow> real" where
  "sign_of a = (if a < 0 then - 1 else 1)"

definition unit_vector :: "nat \<Rightarrow> nat \<Rightarrow> real" where
  "unit_vector k = (\<lambda>i. if i = k then 1 else 0)"

text \<open>Concrete tensors without batch dimensions, given by their entries.\<close>

definition vector_of :: "real list \<Rightarrow> unit vector" where
  "vector_of xs = (\<lambda>b i. if i < length xs then xs ! i else 0)"

definition matrix_of :: "real list list \<Rightarrow> unit matrix" where
  "matrix_of rows = (\<lambda>b i j. if i < length rows \<and> j < length (rows ! i) then rows ! i ! j else 0)"

text \<open>
  The elementary Householder reflector \<open>H\<^sub>j = I - \<tau>\<^sub>j v\<^sub>j v\<^sub>j\<^sup>T\<close> encoded by column \<open>j\<close> of
  \<open>Y\<close> and the scalar \<open>\<tau>\<^sub>j\<close>, and the product \<open>H\<^sub>0 H\<^sub>1 \<dots> H\<^bsub>j-1\<^esub>\<close> of \<open>m\<close> by
  \<open>m\<close> matrices.
\<close>

definition elementary_reflector :: "'b matrix \<Rightarrow> 'b vector \<Rightarrow> nat \<Rightarrow> 'b matrix" where
  "elementary_reflector Y taus j =
     (\<lambda>b i i'. (if i = i' then 1 else 0) - taus b j * Y b i j * Y b i' j)"

primrec reflector_product :: "nat \<Rightarrow> 'b matrix \<Rightarrow> 'b vector \<Rightarrow> nat \<Rightarrow> 'b matrix" where
  "reflector_product m Y taus 0 = (\<lambda>b i i'. if i = i' then 1 else 0)"
| "reflector_product m Y taus (Suc j) =
     (\<lambda>b i i'. \<Sum>r<m. reflector_product m Y taus j b i r * elementary_reflector Y taus j b r i')"

text \<open>A panel of one reflector of length 2, and a panel of two reflectors of length 2.\<close>

definition sample_panel :: "unit matrix" where
  "sample_panel = matrix_of [[1], [2]]"

definition sample_taus :: "unit vector" where
  "sample_taus = vector_of [1 / 2]"

text \<open>
  The recipe of the specification for \<open>T\<close>: \<open>U = - \<tau>[None,:] (strict_upper_triangle(Y\<^sup>T Y) + I)\<close>,
  the replacement of column \<open>j\<close> of \<open>T\<close> by \<open>T U[:, j]\<close>, and the stated loop, which starts
  from \<open>diag(- \<tau>)\<close> and updates the columns \<open>1, \<dots>, k - 1\<close>.  The amended loop starts from
  the identity and updates the columns \<open>0, \<dots>, k - 1\<close>.
\<close>

definition recipe_U :: "'b matrix \<Rightarrow> 'b vector \<Rightarrow> nat \<Rightarrow> 'b matrix" where
  "recipe_U Y taus m =
     (\<lambda>b i j. - taus b j * ((if i < j then (\<Sum>r<m. Y b r i * Y b r j) else 0) +
                              (if i = j then 1 else 0)))"

definition recipe_column_update :: "nat \<Rightarrow> 'b matrix \<Rightarrow> nat \<Rightarrow> 'b matrix \<Rightarrow> 'b matrix" where
  "recipe_column_update k U j T = (\<lambda>b i c. if c = j then (\<Sum>l<k. T b i l * U b l j) else T b i c)"

primrec stated_recipe_loop :: "nat \<Rightarrow> 'b matrix \<Rightarrow> 'b matrix \<Rightarrow> nat \<Rightarrow> 'b matrix" where
  "stated_recipe_loop k U T0 0 = T0"
| "stated_recipe_loop k U T0 (Suc c) =
     recipe_column_update k U (Suc c) (stated_recipe_loop k U T0 c)"

definition stated_recipe :: "'b matrix \<Rightarrow> 'b vector \<Rightarrow> nat \<Rightarrow> nat \<Rightarrow> 'b matrix" where
  "stated_recipe Y taus m k =
     stated_recipe_loop k (recipe_U Y taus m) (\<lambda>b i j. if i = j then - taus b i else 0) (k - 1)"

primrec amended_recipe_loop :: "nat \<Rightarrow> 'b matrix \<Rightarrow> 'b matrix \<Rightarrow> nat \<Rightarrow> 'b matrix" where
  "amended_recipe_loop k U T0 0 = T0"
| "amended_recipe_loop k U T0 (Suc c) =
     recipe_column_update k U c (amended_recipe_loop k U T0 c)"

definition amended_recipe :: "'b matrix \<Rightarrow> 'b vector \<Rightarrow> nat \<Rightarrow> nat \<Rightarrow> 'b matrix" where
  "amended_recipe Y taus m k =
     amended_recipe_loop k (recipe_U Y taus m) (\<lambda>b i j. if i = j then 1 else 0) k"

definition sample_panel2 :: "unit matrix" where
  "sample_panel2 = matrix_of [[1, 0], [2, 1]]"

definition sample_taus2 :: "unit vector" where
  "sample_taus2 = vector_of [1 / 2, 2]"

text \<open>
  The step of the panel loop as the specification describes it: the reflector of column
  \<open>j\<close>, the update \<open>A - \<tau> v (v\<^sup>T M\<^sub>j(A))\<close> where \<open>M\<^sub>j\<close> masks the columns \<open>\<le> j\<close> to
  zero, the overwriting of column \<open>j\<close>, and the scatter of \<open>\<tau>\<close> into position \<open>j\<close>.
\<close>

definition column :: "'b matrix \<Rightarrow> nat \<Rightarrow> 'b vector" where
  "column A j = (\<lambda>b i. A b i j)"

definition mask_columns :: "nat \<Rightarrow> 'b matrix \<Rightarrow> 'b matrix" where
  "mask_columns j A = (\<lambda>b i c. if c \<le> j then 0 else A b i c)"

definition reference_step ::
  "nat \<Rightarrow> nat \<Rightarrow> 'b matrix \<times> 'b vector \<Rightarrow> 'b matrix \<times> 'b vector" where
  "reference_step m j s =
    (let A = fst s;
         taus = snd s;
         (v, tau, beta) = House (column A j) j m;
         vTM = (\<lambda>b c. \<Sum>l<m. v b l * mask_columns j A b l c);
         A' = (\<lambda>b i c. A b i c - tau b * v b i * vTM b c);
         A'' = (\<lambda>b i c. if c = j
                  then (if i < j then A' b i c else if i = j then beta b else v b i)
                  else A' b i c);
         taus' = (\<lambda>b c. if c = j then tau b else taus b c)
     in (A'', taus'))"

text \<open>Two panels of shape \<^verbatim>\<open>f32[2,2]\<close>.\<close>

definition sample_identity :: "unit matrix" where
  "sample_identity = matrix_of [[1, 0], [0, 1]]"

definition sample_matrix :: "unit matrix" where
  "sample_matrix = matrix_of [[3, 0], [4, 1]]"

definition sample_shape :: shape where
  "sample_shape = Shape F32 [2, 2] []"

text \<open>
  Three builders: one whose operations never fail, one that refuses to build a loop on
  32-bit integers with an invalid-argument failure, and one whose shape query fails.
\<close>

definition sample_builder :: builder where
  "sample_builder = \<lparr>GetShape_failure = (\<lambda>s. None), ForEachIndex_failure = (\<lambda>name s. None)\<rparr>"

definition sample_refusing_builder :: builder where
  "sample_refusing_builder =
     \<lparr>GetShape_failure = (\<lambda>s. None),
      ForEachIndex_failure = (\<lambda>name s.
        if element_type s = S32
        then Some (InvalidArgument ''Expected element type in shape to be floating; got %s''
                     [ShapeArg s])
        else None)\<rparr>"

definition sample_closed_builder :: builder where
  "sample_closed_builder =
     \<lparr>GetShape_failure = (\<lambda>s. Some (Internal ''invalid handle'')),
      ForEachIndex_failure = (\<lambda>name s. None)\<rparr>"

text \<open>
  Collaborators that never fail and render a shape by its rank and its dimensions, four
  matched nodes (two on operands of shape \<^verbatim>\<open>f32[2,2]\<close>, one on an operand of shape
  \<^verbatim>\<open>f32[3,2]\<close>, one on a vector), and an expander with an empty cache.
\<close>

definition sample_externals :: "unit externals" where
  "sample_externals =
     \<lparr>ShapeToString = (\<lambda>s. if rank s = 2
                             then (if dimensions s = [2, 2] then ''f32[2,2]'' else ''f32[3,2]'')
                             else ''f32[3]''),
      XlaBuilder = (\<lambda>name. sample_builder),
      Parameter = (\<lambda>s. sample_matrix),
      Build = (\<lambda>name s. None),
      GetProgramShape = (\<lambda>name s. None),
      CreateFromProto = (\<lambda>name s. None)\<rparr>"

definition sample_custom_call :: hlo_instruction where
  "sample_custom_call =
     HloInstruction kCustomCall ''QrDecomposition'' (Shape TUPLE [] [sample_shape, sample_shape])
       [HloInstruction kParameter [] sample_shape [] None] None"

definition sample_custom_call2 :: hlo_instruction where
  "sample_custom_call2 =
     HloInstruction kCustomCall ''QrDecomposition'' (Shape TUPLE [] [sample_shape, sample_shape])
       [HloInstruction kOther [] sample_shape [] None] None"

definition sample_tall_call :: hlo_instruction where
  "sample_tall_call =
     HloInstruction kCustomCall ''QrDecomposition''
       (Shape TUPLE [] [Shape F32 [3, 3] [], Shape F32 [3, 2] []])
       [HloInstruction kParameter [] (Shape F32 [3, 2] []) [] None] None"

definition sample_vector_call :: hlo_instruction where
  "sample_vector_call =
     HloInstruction kCustomCall ''QrDecomposition'' (Shape TUPLE [] [])
       [HloInstruction kParameter [] (Shape F32 [3] []) [] None] None"

definition sample_state :: "unit expander_state" where
  "sample_state =
     \<lparr>computation_cache = Map.empty, module_computations = [], parent_instructions = []\<rparr>"

text \<open>
  The state \<open>(a, q)\<close> of the unrolled loop of the block driver before its block number \<open>t\<close>,
  which starts at \<open>i = t block_size\<close>, for the input \<open>a\<close>.
\<close>

primrec block_states ::
  "builder \<Rightarrow> shape \<Rightarrow> int \<Rightarrow> precision \<Rightarrow> 'b matrix \<Rightarrow> nat \<Rightarrow> error + 'b matrix \<times> 'b matrix" where
  "block_states builder a_shape block_size precision a 0 =
     Inr (a, (\<lambda>b. IdentityMatrix (nat (GetDimension a_shape (- 2))) (nat (GetDimension a_shape (- 2)))))"
| "block_states builder a_shape block_size precision a (Suc t) =
     (case block_states builder a_shape block_size precision a t of
        Inl e \<Rightarrow> Inl e
      | Inr aq \<Rightarrow> qr_block_iteration builder a_shape block_size precision (int t * block_size) aq)"

text \<open>
  The state of the expander and of the module after the expansion of a list of matched
  nodes, one after the other, whatever the result of each.
\<close>

primrec expand_run ::
  "'b externals \<Rightarrow> hlo_instruction list \<Rightarrow> 'b expander_state \<Rightarrow> 'b expander_state" where
  "expand_run ext [] st = st"
| "expand_run ext (instruction # instructions) st =
     expand_run ext instructions (snd (ExpandInstruction ext instruction st))"

text \<open>
  A computation of the module is the expansion of a shape when it bears the key of that
  shape and holds the program that the block driver emits for it with block size 128 and
  the highest precision.
\<close>

definition expansion_of :: "'b externals \<Rightarrow> shape \<Rightarrow> 'b hlo_computation \<Rightarrow> bool" where
  "expansion_of ext operand_shape computation =
     (computation_name computation = ''xla.qr_'' @ ShapeToString ext operand_shape \<and>
      BuildQrDecomposition (XlaBuilder ext (computation_name computation)) operand_shape
          (Parameter ext operand_shape) 128 HIGHEST =
        Inr (root computation, dot_precisions computation))"

text \<open>
  The cache and the module agree from the computation number \<open>n0\<close> on: every computation that
  the cache holds is one of these computations and bears the key of its entry, and each of
  these computations is held by the cache under its name and is the expansion of a shape.
\<close>

definition cache_consistent :: "'b externals \<Rightarrow> nat \<Rightarrow> 'b expander_state \<Rightarrow> bool" where
  "cache_consistent ext n0 st =
     (n0 \<le> length (module_computations st) \<and>
      (\<forall>name c. computation_cache st name = Some (Some c) \<longrightarrow>
         n0 \<le> c \<and> c < length (module_computations st) \<and>
         computation_name (module_computations st ! c) = name) \<and>
      (\<forall>c. n0 \<le> c \<and> c < length (module_computations st) \<longrightarrow>
         computation_cache st (computation_name (module_computations st ! c)) = Some (Some c) \<and>
         (\<exists>s. expansion_of ext s (module_computations st ! c))))"

text \<open>
  A failure is a failure of the builder, for an element type, when one of the operations of
  the builder returns it: the shape query on a handle of that element type, or the
  construction of the loop \<^verbatim>\<open>qr\<close> or \<^verbatim>\<open>wy\<close> on values of that element type.
\<close>

definition builder_failure :: "builder \<Rightarrow> primitive_type \<Rightarrow> error \<Rightarrow> bool" where
  "builder_failure builder type e =
     ((\<exists>s. element_type s = type \<and> GetShape_failure builder s = Some e) \<or>
      (\<exists>s. element_type s = type \<and>
           (ForEachIndex_failure builder ''qr'' s = Some e \<or>
            ForEachIndex_failure builder ''wy'' s = Some e)))"

section \<open>Properties of the reflector builder\<close>

lemma House_sigma_dot: "House_sigma x k m b = dot m (masked_tail (x b) k) (masked_tail (x b) k)"
  unfolding House_sigma_def House_x_after_k_def Reduce_add_def dot_def masked_tail_def ConvertElementType_def Let_def
  by (rule sum.cong) auto

lemma House_sigma_nonneg: "0 \<le> House_sigma x k m b"
  unfolding House_sigma_def Reduce_add_def Let_def by (rule sum_nonneg) simp

lemma House_sigma_zero_tail:
  assumes "House_sigma x k m b = 0" and "i < m"
  shows "House_x_after_k x k b i = 0"
proof -
  have "(\<Sum>i<m. House_x_after_k x k b i * House_x_after_k x k b i) = 0"
    using assms(1) by (simp add: House_sigma_def Reduce_add_def Let_def)
  then have "\<forall>i\<in>{..<m}. House_x_after_k x k b i * House_x_after_k x k b i = 0"
    by (subst (asm) sum_nonneg_eq_0_iff) auto
  with assms(2) show ?thesis by simp
qed

lemma House_mu_gt:
  assumes "House_sigma x k m b \<noteq> 0"
  shows "\<bar>House_alpha x k m b\<bar> < House_mu x k m b"
proof -
  have pos: "0 < House_sigma x k m b"
    using assms House_sigma_nonneg [of x k m b] by simp
  have "\<bar>House_alpha x k m b\<bar> = sqrt ((House_alpha x k m b)\<^sup>2)" by simp
  also have "\<dots> < sqrt ((House_alpha x k m b)\<^sup>2 + House_sigma x k m b)"
    using pos by (subst real_sqrt_less_iff) simp
  finally show ?thesis by (simp add: House_mu_def Let_def)
qed

lemma House_divisor_nonzero: "House_divisor x k m b \<noteq> 0"
proof (cases "House_sigma x k m b = 0")
  case True
  then show ?thesis by (simp add: House_divisor_def Select_def Let_def)
next
  case False
  from House_mu_gt [OF False] show ?thesis
    using False by (auto simp add: House_divisor_def House_beta_def Select_def Let_def)
qed

lemma House_alpha_in_range: "k < m \<Longrightarrow> House_alpha x k m b = x b k"
  by (simp add: House_alpha_def clamp_index_def)

text \<open>
  Claim C1.  For every batch element \<open>b\<close> and every vector \<open>x\<close> of length \<open>m\<close> with
  pivot \<open>k < m\<close>: when the dot product \<open>\<sigma>\<close> of the masked tail with itself is not zero,
  \<^verbatim>\<open>House\<close> returns \<open>\<beta> = - sign(\<alpha>) \<mu>\<close> with \<open>\<mu> = sqrt (\<alpha>\<^sup>2 + \<sigma>)\<close>, the sign of 0 being
  +1 (so \<open>\<mu>\<close> is multiplied by +1 exactly when \<open>\<alpha> < 0\<close>), \<open>\<tau> = (\<beta> - \<alpha>) / \<beta>\<close>, and \<open>v\<close>
  with \<open>v[i] = 0\<close> for \<open>i < k\<close>, \<open>v[k] = 1\<close> and \<open>v[i] = x[i] / (\<alpha> - \<beta>)\<close> for \<open>i > k\<close>.
\<close>

theorem House_nondegenerate:
  assumes "k < m"
    and "dot m (masked_tail (x b) k) (masked_tail (x b) k) \<noteq> 0"
  shows "case House x k m of (v, tau, beta) \<Rightarrow>
    (let alpha = x b k;
         sigma = dot m (masked_tail (x b) k) (masked_tail (x b) k);
         mu = sqrt (alpha\<^sup>2 + sigma)
     in beta b = - sign_of alpha * mu \<and>
        (beta b = 1 * mu \<longleftrightarrow> alpha < 0) \<and>
        tau b = (beta b - alpha) / beta b \<and>
        (\<forall>i<m. v b i = (if i < k then 0 else if i = k then 1 else x b i / (alpha - beta b))))"
proof -
  have sig: "House_sigma x k m b \<noteq> 0"
    using assms(2) by (simp add: House_sigma_dot)
  have al: "House_alpha x k m b = x b k"
    using assms(1) by (rule House_alpha_in_range)
  have mu: "House_mu x k m b = sqrt ((x b k)\<^sup>2 + dot m (masked_tail (x b) k) (masked_tail (x b) k))"
    by (simp add: House_mu_def Let_def al House_sigma_dot)
  have mu_pos: "0 < House_mu x k m b"
    using House_mu_gt [OF sig] by simp
  have be: "House_beta x k m b = - sign_of (x b k) * House_mu x k m b"
    using sig by (simp add: House_beta_def Let_def Select_def al sign_of_def)
  have be_iff: "House_beta x k m b = 1 * House_mu x k m b \<longleftrightarrow> x b k < 0"
    using mu_pos by (simp add: be sign_of_def)
  have ta: "House_tau x k m b = (House_beta x k m b - x b k) / House_beta x k m b"
    using sig by (simp add: House_tau_def Let_def Select_def al)
  have dv: "House_divisor x k m b = x b k - House_beta x k m b"
    using sig by (simp add: House_divisor_def Let_def Select_def al)
  have v: "House_v x k m b i = (if i < k then 0 else if i = k then 1 else x b i / (x b k - House_beta x k m b))" for i
    by (simp add: House_v_def Let_def dv House_x_after_k_def ConvertElementType_def)
  show ?thesis
    unfolding House_def using be be_iff ta v by (simp add: Let_def mu)
qed

theorem House_nondegenerate_witness:
  "(0::nat) < 2 \<and>
   dot 2 (masked_tail (vector_of [3, 4] ()) 0) (masked_tail (vector_of [3, 4] ()) 0) \<noteq> 0 \<and>
   (case House (vector_of [3, 4]) 0 2 of (v, tau, beta) \<Rightarrow>
      beta () = - 5 \<and> tau () = 8 / 5 \<and> v () 0 = 1 \<and> v () 1 = 1 / 2)"
proof -
  have d: "dot 2 (masked_tail (vector_of [3, 4] ()) 0) (masked_tail (vector_of [3, 4] ()) 0) = 16"
    by (simp add: dot_def masked_tail_def vector_of_def numeral_2_eq_2)
  have s: "sqrt (3\<^sup>2 + 16) = 5"
    using real_sqrt_abs [of 5] by simp
  have x0: "vector_of [3, 4] () 0 = 3" and x1: "vector_of [3, 4] () (Suc 0) = 4"
    by (simp_all add: vector_of_def)
  obtain v tau beta where H: "House (vector_of [3, 4]) 0 2 = (v, tau, beta)"
    by (cases "House (vector_of [3, 4]) 0 2") auto
  have r: "beta () = - 5 \<and> tau () = (beta () - 3) / beta () \<and>
      (\<forall>i<2. v () i = (if i < 0 then 0 else if i = 0 then 1
                        else vector_of [3, 4] () i / (3 - beta ())))"
    using House_nondegenerate [of 0 2 "vector_of [3, 4]" "()"]
    by (simp add: H d s x0 Let_def sign_of_def)
  then have "v () 0 = 1" and "v () 1 = 1 / 2"
    by (simp_all add: x1)
  with r show ?thesis
    by (simp add: H d)
qed

text \<open>
  Claim C5.  For every batch element whose masked tail is all zero (\<open>\<sigma> = 0\<close>), \<^verbatim>\<open>House\<close>
  returns \<open>\<beta> = \<alpha>\<close>, \<open>\<tau> = 0\<close> and \<open>v = e\<^sub>k\<close>.  The division that forms \<open>v\<close> divides by
  \<^verbatim>\<open>divisor\<close>, which is 1 when \<open>\<sigma> = 0\<close> and \<open>\<alpha> - \<beta> \<noteq> 0\<close> when \<open>\<sigma> \<noteq> 0\<close>: it is never
  zero, in any batch element.
\<close>

theorem House_zero_tail_guarded:
  assumes "k < m"
  shows "(dot m (masked_tail (x b) k) (masked_tail (x b) k) = 0 \<longrightarrow>
            (case House x k m of (v, tau, beta) \<Rightarrow>
               beta b = x b k \<and> tau b = 0 \<and> (\<forall>i<m. v b i = unit_vector k i)) \<and>
            House_divisor x k m b = 1) \<and>
         (dot m (masked_tail (x b) k) (masked_tail (x b) k) \<noteq> 0 \<longrightarrow>
            House_divisor x k m b = x b k - House_beta x k m b \<and>
            x b k - House_beta x k m b \<noteq> 0) \<and>
         House_divisor x k m b \<noteq> 0 \<and>
         (\<forall>i. House_v x k m b i =
               unit_vector k i + House_x_after_k x k b i / House_divisor x k m b)"
proof -
  have al: "House_alpha x k m b = x b k"
    using assms by (rule House_alpha_in_range)
  have zero: "(case House x k m of (v, tau, beta) \<Rightarrow>
        beta b = x b k \<and> tau b = 0 \<and> (\<forall>i<m. v b i = unit_vector k i)) \<and>
        House_divisor x k m b = 1"
    if "dot m (masked_tail (x b) k) (masked_tail (x b) k) = 0"
  proof -
    have sig: "House_sigma x k m b = 0"
      using that by (simp add: House_sigma_dot)
    have be: "House_beta x k m b = x b k"
      using sig by (simp add: House_beta_def Let_def Select_def al)
    have ta: "House_tau x k m b = 0"
      using sig by (simp add: House_tau_def Let_def Select_def)
    have dv: "House_divisor x k m b = 1"
      using sig by (simp add: House_divisor_def Let_def Select_def)
    have v: "House_v x k m b i = unit_vector k i" if "i < m" for i
      using House_sigma_zero_tail [OF sig that]
      by (simp add: House_v_def Let_def dv unit_vector_def ConvertElementType_def)
    show ?thesis
      unfolding House_def using be ta dv v by simp
  qed
  have nonzero: "House_divisor x k m b = x b k - House_beta x k m b \<and>
        x b k - House_beta x k m b \<noteq> 0"
    if "dot m (masked_tail (x b) k) (masked_tail (x b) k) \<noteq> 0"
  proof -
    have sig: "House_sigma x k m b \<noteq> 0"
      using that by (simp add: House_sigma_dot)
    have dv: "House_divisor x k m b = x b k - House_beta x k m b"
      using sig by (simp add: House_divisor_def Let_def Select_def al)
    with House_divisor_nonzero [of x k m b] show ?thesis by simp
  qed
  have form: "House_v x k m b i =
      unit_vector k i + House_x_after_k x k b i / House_divisor x k m b" for i
    by (simp add: House_v_def Let_def unit_vector_def ConvertElementType_def)
  show ?thesis
    using zero nonzero form House_divisor_nonzero [of x k m b] by blast
qed

lemma dot_3_0: "dot 2 (masked_tail (vector_of [3, 0] ()) 0) (masked_tail (vector_of [3, 0] ()) 0) = 0"
  by (simp add: dot_def masked_tail_def vector_of_def numeral_2_eq_2)

lemma dot_3_4: "dot 2 (masked_tail (vector_of [3, 4] ()) 0) (masked_tail (vector_of [3, 4] ()) 0) = 16"
  by (simp add: dot_def masked_tail_def vector_of_def numeral_2_eq_2)

theorem House_zero_tail_guarded_witness:
  "(0::nat) < 2 \<and>
   dot 2 (masked_tail (vector_of [3, 0] ()) 0) (masked_tail (vector_of [3, 0] ()) 0) = 0 \<and>
   (case House (vector_of [3, 0]) 0 2 of (v, tau, beta) \<Rightarrow>
      beta () = 3 \<and> tau () = 0 \<and> v () 0 = 1 \<and> v () 1 = 0) \<and>
   House_divisor (vector_of [3, 0]) 0 2 () = 1 \<and>
   dot 2 (masked_tail (vector_of [3, 4] ()) 0) (masked_tail (vector_of [3, 4] ()) 0) \<noteq> 0 \<and>
   House_divisor (vector_of [3, 4]) 0 2 () = 3 - House_beta (vector_of [3, 4]) 0 2 () \<and>
   House_divisor (vector_of [3, 4]) 0 2 () \<noteq> 0"
proof -
  have two: "(0::nat) < 2" by simp
  have x0: "vector_of [3, 0] () 0 = 3" and y0: "vector_of [3, 4] () 0 = 3"
    by (simp_all add: vector_of_def)
  obtain v tau beta where H: "House (vector_of [3, 0]) 0 2 = (v, tau, beta)"
    by (cases "House (vector_of [3, 0]) 0 2") auto
  have a: "beta () = 3 \<and> tau () = 0 \<and> (\<forall>i<2. v () i = unit_vector 0 i) \<and>
      House_divisor (vector_of [3, 0]) 0 2 () = 1"
    using House_zero_tail_guarded [OF two, of "vector_of [3, 0]" "()"]
    by (simp add: H dot_3_0 x0)
  then have "v () 0 = 1" and "v () 1 = 0"
    by (simp_all add: unit_vector_def)
  moreover have "House_divisor (vector_of [3, 4]) 0 2 () = 3 - House_beta (vector_of [3, 4]) 0 2 () \<and>
      House_divisor (vector_of [3, 4]) 0 2 () \<noteq> 0"
    using House_zero_tail_guarded [OF two, of "vector_of [3, 4]" "()"]
    by (simp add: dot_3_4 y0)
  ultimately show ?thesis
    using a by (simp add: H dot_3_0 dot_3_4)
qed

section \<open>Properties of the Compact-WY builder\<close>

lemma sum_mask_below:
  fixes f g :: "nat \<Rightarrow> real"
  assumes "j \<le> n"
  shows "(\<Sum>l<n. f l * (if l < j then g l else 0)) = (\<Sum>l<j. f l * g l)"
proof -
  have "(\<Sum>l<n. f l * (if l < j then g l else 0)) = (\<Sum>l\<in>{..<n}. if l \<in> {..<j} then f l * g l else 0)"
    by (rule sum.cong) auto
  also have "\<dots> = (\<Sum>l\<in>{..<n} \<inter> {..<j}. f l * g l)"
    by (simp add: sum.inter_restrict)
  also have "{..<n} \<inter> {..<j} = {..<j}"
    using assms by auto
  finally show ?thesis .
qed

lemma sum_pick:
  fixes f :: "nat \<Rightarrow> real"
  assumes "j < n"
  shows "(\<Sum>l<n. f l * (if l = j then 1 else 0)) = f j"
proof -
  have "(\<Sum>l<n. f l * (if l = j then 1 else 0)) = (\<Sum>l\<in>{..<n}. if l = j then f l else 0)"
    by (rule sum.cong) auto
  also have "\<dots> = f j"
    using assms by (simp add: sum.delta)
  finally show ?thesis .
qed

lemma sum_pick_left:
  fixes f :: "nat \<Rightarrow> real"
  assumes "j < n"
  shows "(\<Sum>l<n. (if j = l then 1 else 0) * f l) = f j"
proof -
  have "(\<Sum>l<n. (if j = l then 1 else 0) * f l) = (\<Sum>l\<in>{..<n}. if l = j then f l else 0)"
    by (rule sum.cong) auto
  also have "\<dots> = f j"
    using assms by (simp add: sum.delta)
  finally show ?thesis .
qed

lemma compact_wy_step:
  fixes Y T T' P :: "nat \<Rightarrow> nat \<Rightarrow> real" and t :: real
  assumes inv: "\<And>i i'. i < m \<Longrightarrow> i' < m \<Longrightarrow>
        P i i' = (if i = i' then 1 else 0) + (\<Sum>c<j. \<Sum>c'<j. Y i c * T c c' * Y i' c')"
    and old: "\<And>c c'. c' < j \<Longrightarrow> T' c c' = T c c'"
    and low: "\<And>c'. c' < j \<Longrightarrow> T j c' = 0"
    and col: "\<And>c. c < j \<Longrightarrow> T' c j = - t * (\<Sum>l<j. T c l * (\<Sum>r<m. Y r l * Y r j))"
    and diag: "T' j j = - t"
    and i: "i < m" and i': "i' < m"
  shows "(\<Sum>r<m. P i r * ((if r = i' then 1 else 0) - t * Y r j * Y i' j)) =
         (if i = i' then 1 else 0) + (\<Sum>c<Suc j. \<Sum>c'<Suc j. Y i c * T' c c' * Y i' c')"
proof -
  define W where "W a a' = (\<Sum>c<j. \<Sum>c'<j. Y a c * T c c' * Y a' c')" for a a'
  define S where "S c = (\<Sum>l<j. T c l * (\<Sum>r<m. Y r l * Y r j))" for c
  have P: "P i r = (if i = r then 1 else 0) + W i r" if "r < m" for r
    using inv [OF i that] by (simp add: W_def)
  have WY: "(\<Sum>r<m. W i r * Y r j) = (\<Sum>c<j. Y i c * S c)"
  proof -
    have "(\<Sum>r<m. W i r * Y r j) = (\<Sum>r<m. \<Sum>c<j. \<Sum>c'<j. Y i c * T c c' * (Y r c' * Y r j))"
      by (simp add: W_def sum_distrib_right mult.assoc)
    also have "\<dots> = (\<Sum>c<j. \<Sum>r<m. \<Sum>c'<j. Y i c * T c c' * (Y r c' * Y r j))"
      by (rule sum.swap)
    also have "\<dots> = (\<Sum>c<j. \<Sum>c'<j. \<Sum>r<m. Y i c * T c c' * (Y r c' * Y r j))"
      by (rule sum.cong [OF refl]) (rule sum.swap)
    also have "\<dots> = (\<Sum>c<j. Y i c * S c)"
      by (simp add: S_def sum_distrib_left mult.assoc)
    finally show ?thesis .
  qed
  have PY: "(\<Sum>r<m. P i r * Y r j) = Y i j + (\<Sum>c<j. Y i c * S c)"
  proof -
    have "(\<Sum>r<m. P i r * Y r j) = (\<Sum>r<m. (if i = r then 1 else 0) * Y r j + W i r * Y r j)"
      by (rule sum.cong [OF refl]) (simp add: P algebra_simps)
    also have "\<dots> = (\<Sum>r<m. (if i = r then 1 else 0) * Y r j) + (\<Sum>r<m. W i r * Y r j)"
      by (rule sum.distrib)
    also have "\<dots> = Y i j + (\<Sum>c<j. Y i c * S c)"
      by (simp only: sum_pick_left [OF i] WY)
    finally show ?thesis .
  qed
  have lhs: "(\<Sum>r<m. P i r * ((if r = i' then 1 else 0) - t * Y r j * Y i' j)) =
      P i i' - t * (Y i j + (\<Sum>c<j. Y i c * S c)) * Y i' j"
  proof -
    have "(\<Sum>r<m. P i r * ((if r = i' then 1 else 0) - t * Y r j * Y i' j)) =
        (\<Sum>r<m. P i r * (if r = i' then 1 else 0) - t * (P i r * Y r j) * Y i' j)"
      by (rule sum.cong [OF refl]) (simp add: algebra_simps)
    also have "\<dots> = (\<Sum>r<m. P i r * (if r = i' then 1 else 0)) - (\<Sum>r<m. t * (P i r * Y r j) * Y i' j)"
      by (rule sum_subtractf)
    also have "(\<Sum>r<m. t * (P i r * Y r j) * Y i' j) = t * (\<Sum>r<m. P i r * Y r j) * Y i' j"
      by (simp add: sum_distrib_left sum_distrib_right)
    also have "(\<Sum>r<m. P i r * (if r = i' then 1 else 0)) = P i i'"
      by (rule sum_pick [OF i'])
    finally show ?thesis by (simp only: PY)
  qed
  have inner: "(\<Sum>c'<j. Y i c * T' c c' * Y i' c') = (\<Sum>c'<j. Y i c * T c c' * Y i' c')" for c
    by (rule sum.cong) (simp_all add: old)
  have rhs: "(\<Sum>c<Suc j. \<Sum>c'<Suc j. Y i c * T' c c' * Y i' c') =
      W i i' - t * (\<Sum>c<j. Y i c * S c) * Y i' j - t * Y i j * Y i' j"
  proof -
    have "(\<Sum>c<Suc j. \<Sum>c'<Suc j. Y i c * T' c c' * Y i' c') =
        (\<Sum>c<j. (\<Sum>c'<j. Y i c * T c c' * Y i' c') + Y i c * T' c j * Y i' j) +
        ((\<Sum>c'<j. Y i j * T j c' * Y i' c') + Y i j * T' j j * Y i' j)"
      by (simp only: inner sum.lessThan_Suc)
    also have "(\<Sum>c'<j. Y i j * T j c' * Y i' c') = 0"
      by (rule sum.neutral) (simp add: low)
    also have "(\<Sum>c<j. (\<Sum>c'<j. Y i c * T c c' * Y i' c') + Y i c * T' c j * Y i' j) =
        W i i' + (\<Sum>c<j. Y i c * T' c j * Y i' j)"
      by (simp add: sum.distrib W_def)
    also have "(\<Sum>c<j. Y i c * T' c j * Y i' j) = - t * (\<Sum>c<j. Y i c * S c) * Y i' j"
    proof -
      have "(\<Sum>c<j. Y i c * T' c j * Y i' j) = (\<Sum>c<j. - t * (Y i c * S c) * Y i' j)"
        by (rule sum.cong [OF refl]) (simp add: col S_def)
      also have "\<dots> = - t * (\<Sum>c<j. Y i c * S c) * Y i' j"
        by (simp only: sum_distrib_left sum_distrib_right)
      finally show ?thesis .
    qed
    finally show ?thesis by (simp add: diag)
  qed
  show ?thesis
    unfolding lhs rhs using inv [OF i i'] by (simp add: W_def algebra_simps)
qed

lemma wy_loop_vtv:
  "snd (ForEachIndex j (wy_body_fn n precision) s) = snd s"
  by (induction j) (simp_all add: wy_body_fn_def Let_def)

lemma CompactWY_init_vtv:
  "snd (CompactWY_init vs taus m n precision) b i c =
     - taus b c * ((if i < c then (\<Sum>r<m. vs b r i * vs b r c) else 0) + (if i = c then 1 else 0))"
  by (simp add: CompactWY_init_def Let_def BatchDot_def Select_def TriangleMask_def
      IdentityMatrix_def)

lemma CompactWY_init_t:
  "fst (CompactWY_init vs taus m n precision) b i c = (if i = c then 1 else 0)"
  by (simp add: CompactWY_init_def Let_def IdentityMatrix_def)

lemma wy_body_fn_t:
  assumes "j < n"
  shows "fst (wy_body_fn n precision j s) b i c =
     (if c = j then (\<Sum>l<n. fst s b i l * snd s b l j) else fst s b i c)"
  using assms
  by (simp add: wy_body_fn_def Let_def DynamicSliceInMinorDims_def
      DynamicUpdateSliceInMinorDims_def BatchDot_def clamp_index_def)

lemma wy_loop_untouched:
  assumes "j \<le> n" and "j \<le> c"
  shows "fst (ForEachIndex j (wy_body_fn n precision) (CompactWY_init vs taus m n precision)) b i c =
     (if i = c then 1 else 0)"
  using assms
proof (induction j)
  case 0
  show ?case by (simp add: CompactWY_init_t)
next
  case (Suc j)
  then show ?case by (simp add: wy_body_fn_t)
qed

lemma wy_loop_upper:
  assumes "j \<le> n" and "c < i"
  shows "fst (ForEachIndex j (wy_body_fn n precision) (CompactWY_init vs taus m n precision)) b i c = 0"
  using assms
proof (induction j arbitrary: i c)
  case 0
  then show ?case by (simp add: CompactWY_init_t)
next
  case (Suc j)
  let ?s = "ForEachIndex j (wy_body_fn n precision) (CompactWY_init vs taus m n precision)"
  have jn: "j < n" and jn': "j \<le> n" using Suc.prems by simp_all
  show ?case
  proof (cases "c = j")
    case True
    have "(\<Sum>l<n. fst ?s b i l * snd ?s b l j) = 0"
    proof (rule sum.neutral, rule ballI)
      fix l assume "l \<in> {..<n}"
      show "fst ?s b i l * snd ?s b l j = 0"
      proof (cases "l < i")
        case True
        then show ?thesis using Suc.IH [OF jn'] by simp
      next
        case False
        then have "j < l" using \<open>c = j\<close> Suc.prems(2) by simp
        then show ?thesis by (simp add: wy_loop_vtv CompactWY_init_vtv)
      qed
    qed
    then show ?thesis using True jn by (simp add: wy_body_fn_t)
  next
    case False
    then show ?thesis using Suc.IH [OF jn' Suc.prems(2)] jn by (simp add: wy_body_fn_t)
  qed
qed

lemma wy_loop_column:
  assumes "j < n"
  shows "fst (ForEachIndex (Suc j) (wy_body_fn n precision) (CompactWY_init vs taus m n precision)) b i j =
     - taus b j * ((\<Sum>l<j. fst (ForEachIndex j (wy_body_fn n precision)
                                (CompactWY_init vs taus m n precision)) b i l *
                            (\<Sum>r<m. vs b r l * vs b r j)) + (if i = j then 1 else 0))"
proof -
  let ?s = "ForEachIndex j (wy_body_fn n precision) (CompactWY_init vs taus m n precision)"
  let ?V = "\<lambda>l. \<Sum>r<m. vs b r l * vs b r j"
  have "(\<Sum>l<n. fst ?s b i l * snd ?s b l j) =
      (\<Sum>l<n. - taus b j * (fst ?s b i l * (if l < j then ?V l else 0)) +
              - taus b j * (fst ?s b i l * (if l = j then 1 else 0)))"
    by (rule sum.cong [OF refl]) (simp add: wy_loop_vtv CompactWY_init_vtv algebra_simps)
  also have "\<dots> = - taus b j * (\<Sum>l<n. fst ?s b i l * (if l < j then ?V l else 0)) +
      - taus b j * (\<Sum>l<n. fst ?s b i l * (if l = j then 1 else 0))"
    by (simp only: sum.distrib sum_distrib_left)
  also have "(\<Sum>l<n. fst ?s b i l * (if l < j then ?V l else 0)) = (\<Sum>l<j. fst ?s b i l * ?V l)"
    using assms by (intro sum_mask_below) simp
  also have "(\<Sum>l<n. fst ?s b i l * (if l = j then 1 else 0)) = fst ?s b i j"
    using assms by (rule sum_pick)
  also have "fst ?s b i j = (if i = j then 1 else 0)"
    using assms by (intro wy_loop_untouched) simp_all
  finally show ?thesis using assms by (simp add: wy_body_fn_t algebra_simps)
qed

lemma wy_loop_product:
  assumes "j \<le> n" and "i < m" and "i' < m"
  shows "reflector_product m vs taus j b i i' =
     (if i = i' then 1 else 0) +
     (\<Sum>c<j. \<Sum>c'<j. vs b i c *
        fst (ForEachIndex j (wy_body_fn n precision) (CompactWY_init vs taus m n precision)) b c c' *
        vs b i' c')"
  using assms
proof (induction j arbitrary: i i')
  case 0
  show ?case by simp
next
  case (Suc j)
  let ?s = "ForEachIndex j (wy_body_fn n precision) (CompactWY_init vs taus m n precision)"
  let ?s' = "ForEachIndex (Suc j) (wy_body_fn n precision) (CompactWY_init vs taus m n precision)"
  have jn: "j < n" and jn': "j \<le> n" using Suc.prems by simp_all
  have low: "fst ?s b j c' = 0" if "c' < j" for c'
    using wy_loop_upper [OF jn' that] .
  have col: "fst ?s' b c j = - taus b j * (\<Sum>l<j. fst ?s b c l * (\<Sum>r<m. vs b r l * vs b r j))"
    if "c < j" for c
    using that by (simp only: wy_loop_column [OF jn]) simp
  have diag: "fst ?s' b j j = - taus b j"
  proof -
    have "(\<Sum>l<j. fst ?s b j l * (\<Sum>r<m. vs b r l * vs b r j)) = 0"
      by (rule sum.neutral) (simp add: low)
    then show ?thesis by (simp only: wy_loop_column [OF jn]) simp
  qed
  have old: "fst ?s' b c c' = fst ?s b c c'" if "c' < j" for c c'
    using that jn by (simp add: wy_body_fn_t)
  have "(\<Sum>r<m. reflector_product m vs taus j b i r *
           ((if r = i' then 1 else 0) - taus b j * vs b r j * vs b i' j)) =
        (if i = i' then 1 else 0) + (\<Sum>c<Suc j. \<Sum>c'<Suc j. vs b i c * fst ?s' b c c' * vs b i' c')"
    by (rule compact_wy_step [where T = "fst ?s b", OF Suc.IH [OF jn'] old low col diag
          Suc.prems(2) Suc.prems(3)])
  then show ?case by (simp add: elementary_reflector_def)
qed

text \<open>
  Claim C2, as amended.  For every panel \<open>(Y, \<tau>)\<close> of \<open>n\<close> reflectors of length \<open>m\<close>, the
  matrix \<open>T\<close> returned by the Compact-WY builder satisfies
  \<open>I + Y T Y\<^sup>T = H\<^sub>0 H\<^sub>1 \<dots> H\<^bsub>n-1\<^esub>\<close>: the sign in front of \<open>Y T Y\<^sup>T\<close> is plus, since the
  diagonal of \<open>T\<close> is \<open>- \<tau>\<close>.
\<close>

theorem CompactWY_product:
  assumes "i < m" and "i' < m"
  shows "IdentityMatrix m m i i' +
         BatchDot n (BatchDot n Y False (CompactWYRepresentation Y taus m n precision) False
                       precision)
           False Y True precision b i i' =
         reflector_product m Y taus n b i i'"
proof -
  let ?T = "fst (ForEachIndex n (wy_body_fn n precision) (CompactWY_init Y taus m n precision))"
  have "BatchDot n (BatchDot n Y False ?T False precision) False Y True precision b i i' =
      (\<Sum>c'<n. \<Sum>c<n. Y b i c * ?T b c c' * Y b i' c')"
    by (simp add: BatchDot_def sum_distrib_right)
  also have "\<dots> = (\<Sum>c<n. \<Sum>c'<n. Y b i c * ?T b c c' * Y b i' c')"
    by (rule sum.swap)
  finally show ?thesis
    using wy_loop_product [OF le_refl assms, where vs = Y and taus = taus and b = b and precision = precision]
    by (simp add: CompactWYRepresentation_def Let_def IdentityMatrix_def)
qed

lemma sample_T:
  "CompactWYRepresentation sample_panel sample_taus 2 (Suc 0) HIGHEST () 0 0 = - (1 / 2)"
  by (simp add: CompactWYRepresentation_def CompactWY_init_def wy_body_fn_def Let_def
      DynamicSliceInMinorDims_def DynamicUpdateSliceInMinorDims_def BatchDot_def clamp_index_def
      IdentityMatrix_def Select_def TriangleMask_def sample_taus_def vector_of_def)

lemma sample_YTY:
  "BatchDot (Suc 0) (BatchDot (Suc 0) sample_panel False
      (CompactWYRepresentation sample_panel sample_taus 2 (Suc 0) HIGHEST) False HIGHEST)
      False sample_panel True HIGHEST () 0 (Suc 0) = - 1"
  by (simp add: BatchDot_def sample_T) (simp add: sample_panel_def matrix_of_def)

lemma sample_product: "reflector_product 2 sample_panel sample_taus (Suc 0) () 0 (Suc 0) = - 1"
  by (simp add: elementary_reflector_def numeral_2_eq_2 sample_panel_def sample_taus_def
      matrix_of_def vector_of_def)

text \<open>
  Claim C2 as stated, with \<open>I - Y T Y\<^sup>T\<close>, fails for the panel of one reflector \<open>v = (1, 2)\<close>
  with \<open>\<tau> = 1/2\<close>: the entry \<open>(0, 1)\<close> of \<open>I - Y T Y\<^sup>T\<close> is 1, that of \<open>H\<^sub>0\<close> is -1.
\<close>

theorem CompactWY_minus_counterexample:
  "IdentityMatrix 2 2 0 1 -
     BatchDot 1 (BatchDot 1 sample_panel False
       (CompactWYRepresentation sample_panel sample_taus 2 1 HIGHEST) False HIGHEST)
       False sample_panel True HIGHEST () 0 1
   \<noteq> reflector_product 2 sample_panel sample_taus 1 () 0 1"
  by (simp add: sample_YTY sample_product IdentityMatrix_def del: reflector_product.simps)

theorem CompactWY_product_witness:
  "(0::nat) < 2 \<and> (1::nat) < 2 \<and>
   IdentityMatrix 2 2 0 1 +
     BatchDot 1 (BatchDot 1 sample_panel False
       (CompactWYRepresentation sample_panel sample_taus 2 1 HIGHEST) False HIGHEST)
       False sample_panel True HIGHEST () 0 1
   = reflector_product 2 sample_panel sample_taus 1 () 0 1 \<and>
   reflector_product 2 sample_panel sample_taus 1 () 0 1 = - 1"
proof -
  have a: "(0::nat) < 2" and b: "(1::nat) < 2" by simp_all
  show ?thesis
    using CompactWY_product [OF a b, of 1 sample_panel sample_taus HIGHEST "()"]
    by (simp add: sample_product del: reflector_product.simps)
qed

text \<open>
  Claim C7.  For every input \<open>(Y, \<tau>)\<close>, the initial \<open>T\<close> (\<open>j = 0\<close>) and the \<open>T\<close> after each
  of the \<open>n\<close> column updates (\<open>j = 1, \<dots>, n\<close>) have all entries strictly below the diagonal
  equal to zero, and so has the returned \<open>T\<close>.
\<close>

theorem CompactWY_upper_triangular:
  "(\<forall>j\<le>n. \<forall>i c. c < i \<longrightarrow>
      fst (ForEachIndex j (wy_body_fn n precision) (CompactWY_init Y taus m n precision)) b i c = 0) \<and>
   (\<forall>i c. c < i \<longrightarrow> CompactWYRepresentation Y taus m n precision b i c = 0)"
proof (intro conjI allI impI)
  fix j i c :: nat
  assume "j \<le> n" and "c < i"
  then show "fst (ForEachIndex j (wy_body_fn n precision) (CompactWY_init Y taus m n precision)) b i c = 0"
    by (rule wy_loop_upper)
next
  fix i c :: nat
  assume below: "c < i"
  have "fst (ForEachIndex n (wy_body_fn n precision) (CompactWY_init Y taus m n precision)) b i c = 0"
    using le_refl below by (rule wy_loop_upper)
  then show "CompactWYRepresentation Y taus m n precision b i c = 0"
    by (simp add: CompactWYRepresentation_def Let_def)
qed

theorem CompactWY_upper_triangular_witness:
  "(1::nat) \<le> 2 \<and> (0::nat) < 1 \<and>
   fst (ForEachIndex 1 (wy_body_fn 2 HIGHEST) (CompactWY_init sample_panel2 sample_taus2 2 2 HIGHEST))
     () 1 0 = 0 \<and>
   CompactWYRepresentation sample_panel2 sample_taus2 2 2 HIGHEST () 1 0 = 0"
proof -
  have a: "(1::nat) \<le> 2" and b: "(0::nat) < 1" by simp_all
  from CompactWY_upper_triangular [of 2 HIGHEST sample_panel2 sample_taus2 2 "()"]
  have "fst (ForEachIndex 1 (wy_body_fn 2 HIGHEST)
          (CompactWY_init sample_panel2 sample_taus2 2 2 HIGHEST)) () 1 0 = 0"
    and "CompactWYRepresentation sample_panel2 sample_taus2 2 2 HIGHEST () 1 0 = 0"
    using a b by blast+
  then show ?thesis by simp
qed

lemma CompactWY_init_recipe:
  "CompactWY_init Y taus m k precision = ((\<lambda>b i j. if i = j then 1 else 0), recipe_U Y taus m)"
proof -
  have "fst (CompactWY_init Y taus m k precision) = (\<lambda>b i j. if i = j then 1 else 0)"
    by (intro ext) (simp add: CompactWY_init_t)
  moreover have "snd (CompactWY_init Y taus m k precision) = recipe_U Y taus m"
    by (intro ext) (simp add: CompactWY_init_vtv recipe_U_def)
  ultimately show ?thesis by (simp add: prod_eq_iff)
qed

lemma wy_loop_recipe:
  assumes "j \<le> k"
  shows "fst (ForEachIndex j (wy_body_fn k precision) (CompactWY_init Y taus m k precision)) =
     amended_recipe_loop k (recipe_U Y taus m) (\<lambda>b i j. if i = j then 1 else 0) j"
  using assms
proof (induction j)
  case 0
  show ?case by (simp add: CompactWY_init_recipe)
next
  case (Suc j)
  let ?s = "ForEachIndex j (wy_body_fn k precision) (CompactWY_init Y taus m k precision)"
  have jk: "j < k" using Suc.prems by simp
  have sn: "snd ?s = recipe_U Y taus m"
    by (simp add: wy_loop_vtv CompactWY_init_recipe)
  have "fst (wy_body_fn k precision j ?s) = recipe_column_update k (recipe_U Y taus m) j (fst ?s)"
    by (intro ext) (simp add: wy_body_fn_t [OF jk] recipe_column_update_def sn)
  then show ?case using Suc.IH jk by simp
qed

lemma wy_loop_settled:
  assumes "j \<le> j'" and "j' \<le> n" and "c < j"
  shows "fst (ForEachIndex j' (wy_body_fn n precision) s) b i c =
         fst (ForEachIndex j (wy_body_fn n precision) s) b i c"
  using assms
proof (induction j')
  case 0
  then show ?case by simp
next
  case (Suc j')
  show ?case
  proof (cases "j = Suc j'")
    case True
    then show ?thesis by simp
  next
    case False
    then have "j \<le> j'" and "j' \<le> n" and "j' < n" and "c \<noteq> j'"
      using Suc.prems by simp_all
    then show ?thesis using Suc.IH Suc.prems(3) by (simp add: wy_body_fn_t)
  qed
qed

lemma wy_loop_diagonal:
  assumes "j < n"
  shows "fst (ForEachIndex (Suc j) (wy_body_fn n precision) (CompactWY_init vs taus m n precision)) b j j
     = - taus b j"
proof -
  have "(\<Sum>l<j. fst (ForEachIndex j (wy_body_fn n precision) (CompactWY_init vs taus m n precision)) b j l *
          (\<Sum>r<m. vs b r l * vs b r j)) = 0"
    using assms by (intro sum.neutral) (simp add: wy_loop_upper)
  then show ?thesis by (simp only: wy_loop_column [OF assms]) simp
qed

lemma CompactWY_diagonal:
  assumes "j < n"
  shows "CompactWYRepresentation Y taus m n precision b j j = - taus b j"
proof -
  have "fst (ForEachIndex n (wy_body_fn n precision) (CompactWY_init Y taus m n precision)) b j j =
      fst (ForEachIndex (Suc j) (wy_body_fn n precision) (CompactWY_init Y taus m n precision)) b j j"
    using assms by (intro wy_loop_settled) simp_all
  also have "\<dots> = - taus b j"
    using assms by (rule wy_loop_diagonal)
  finally show ?thesis
    by (simp only: CompactWYRepresentation_def Let_def)
qed

text \<open>
  Claim C3, as amended.  With \<open>U = - \<tau>[None,:] (strict_upper_triangle(Y\<^sup>T Y) + I)\<close>, the
  builder initialises \<open>T\<close> to the identity and, for each \<open>j\<close> in \<open>[0, k)\<close>, replaces column
  \<open>j\<close> of \<open>T\<close> by \<open>T U[:, j]\<close>; the loop starts at \<open>j = 0\<close>, every diagonal entry of the
  result is \<open>T[j, j] = - \<tau>\<^sub>j\<close>, and in particular \<open>T[0, 0] = - \<tau>\<^sub>0\<close>.
\<close>

theorem CompactWY_recipe:
  "CompactWYRepresentation Y taus m k precision = amended_recipe Y taus m k \<and>
   (\<forall>j<k. CompactWYRepresentation Y taus m k precision b j j = - taus b j) \<and>
   (0 < k \<longrightarrow> CompactWYRepresentation Y taus m k precision b 0 0 = - taus b 0)"
proof -
  have e: "CompactWYRepresentation Y taus m k precision = amended_recipe Y taus m k"
    by (simp add: CompactWYRepresentation_def Let_def amended_recipe_def wy_loop_recipe)
  have d: "CompactWYRepresentation Y taus m k precision b j j = - taus b j" if "j < k" for j
    using that by (rule CompactWY_diagonal)
  show ?thesis
    by (intro conjI allI impI e d)
qed

lemma sample_code_T11:
  "CompactWYRepresentation sample_panel2 sample_taus2 2 2 HIGHEST () (Suc 0) (Suc 0) = - 2"
proof -
  have "(Suc 0) < (2::nat)" by simp
  from CompactWY_diagonal [OF this, of sample_panel2 sample_taus2 2 HIGHEST "()"]
  show ?thesis by (simp add: sample_taus2_def vector_of_def)
qed

lemma sample_stated_T11: "stated_recipe sample_panel2 sample_taus2 2 2 () (Suc 0) (Suc 0) = 4"
  by (simp add: stated_recipe_def recipe_column_update_def recipe_U_def numeral_2_eq_2
      sample_taus2_def vector_of_def)

text \<open>
  Claim C3 as stated fails: started from \<open>diag(- \<tau>)\<close> with the loop from \<open>j = 1\<close>, the recipe
  gives \<open>T[1, 1] = \<tau>\<^sub>1\<^sup>2 = 4\<close> for \<open>\<tau>\<^sub>1 = 2\<close>, where the builder returns \<open>- \<tau>\<^sub>1 = - 2\<close>.
\<close>

theorem CompactWY_stated_recipe_counterexample:
  "CompactWYRepresentation sample_panel2 sample_taus2 2 2 HIGHEST () 1 1 \<noteq>
   stated_recipe sample_panel2 sample_taus2 2 2 () 1 1"
  by (simp add: sample_code_T11 sample_stated_T11)

theorem CompactWY_recipe_witness:
  "(1::nat) < 2 \<and> (0::nat) < 2 \<and>
   CompactWYRepresentation sample_panel2 sample_taus2 2 2 HIGHEST = amended_recipe sample_panel2 sample_taus2 2 2 \<and>
   CompactWYRepresentation sample_panel2 sample_taus2 2 2 HIGHEST () 1 1 = - 2 \<and>
   CompactWYRepresentation sample_panel2 sample_taus2 2 2 HIGHEST () 0 0 = - (1 / 2)"
proof -
  have a: "(1::nat) < 2" and b: "(0::nat) < 2" by simp_all
  have t1: "sample_taus2 () 1 = 2" and t0: "sample_taus2 () 0 = 1 / 2"
    by (simp_all add: sample_taus2_def vector_of_def)
  note r = CompactWY_recipe [of sample_panel2 sample_taus2 2 2 HIGHEST "()"]
  have e: "CompactWYRepresentation sample_panel2 sample_taus2 2 2 HIGHEST =
      amended_recipe sample_panel2 sample_taus2 2 2"
    using r by (rule conjunct1)
  have d1: "CompactWYRepresentation sample_panel2 sample_taus2 2 2 HIGHEST () 1 1 = - 2"
    using r [THEN conjunct2, THEN conjunct1, rule_format, OF a] by (simp only: t1)
  have d0: "CompactWYRepresentation sample_panel2 sample_taus2 2 2 HIGHEST () 0 0 = - (1 / 2)"
    using r [THEN conjunct2, THEN conjunct2, rule_format, OF b] by (simp only: t0)
  show ?thesis
    by (intro conjI a b e d1 d0)
qed

section \<open>Properties of the unblocked panel factorizer\<close>

lemma qr_body_fn_a:
  assumes "j < n"
  shows "fst (qr_body_fn m n precision j s) b i c =
     (if c = j
      then (if i < j then fst s b i j
            else if i = j then House_beta (column (fst s) j) j m b
            else House_v (column (fst s) j) j m b i)
      else fst s b i c - House_tau (column (fst s) j) j m b *
             (House_v (column (fst s) j) j m b i *
              (\<Sum>l<m. House_v (column (fst s) j) j m b l * (if j < c then fst s b l c else 0))))"
proof -
  have x: "(\<lambda>b i. DynamicSliceInMinorDims n (fst s) j b i 0) = column (fst s) j"
    using assms by (intro ext) (simp add: DynamicSliceInMinorDims_def clamp_index_def column_def)
  show ?thesis
    unfolding qr_body_fn_def Let_def x House_def split_def fst_conv snd_conv
    using assms
    by (simp add: BatchDot_def Select_def ConvertElementType_def DynamicSliceInMinorDims_def
        clamp_index_def column_def)
qed

lemma qr_body_fn_taus:
  assumes "j < n"
  shows "snd (qr_body_fn m n precision j s) b c =
     (if c = j then snd s b c + House_tau (column (fst s) j) j m b else snd s b c)"
proof -
  have x: "(\<lambda>b i. DynamicSliceInMinorDims n (fst s) j b i 0) = column (fst s) j"
    using assms by (intro ext) (simp add: DynamicSliceInMinorDims_def clamp_index_def column_def)
  show ?thesis
    unfolding qr_body_fn_def Let_def x House_def split_def fst_conv snd_conv
    by (simp add: Select_def)
qed

lemma reference_step_a:
  "fst (reference_step m j s) b i c =
     (if c = j
      then (if i < j then fst s b i j
            else if i = j then House_beta (column (fst s) j) j m b
            else House_v (column (fst s) j) j m b i)
      else fst s b i c - House_tau (column (fst s) j) j m b *
             (House_v (column (fst s) j) j m b i *
              (\<Sum>l<m. House_v (column (fst s) j) j m b l * (if j < c then fst s b l c else 0))))"
proof -
  have m: "mask_columns j (fst s) b l c = (if j < c then fst s b l c else 0)" for l c
    by (simp add: mask_columns_def)
  show ?thesis
    unfolding reference_step_def Let_def House_def split_def fst_conv snd_conv m
    by (simp add: mult.assoc)
qed

lemma reference_step_taus:
  "snd (reference_step m j s) b c =
     (if c = j then House_tau (column (fst s) j) j m b else snd s b c)"
  unfolding reference_step_def Let_def House_def split_def fst_conv snd_conv by simp

lemma qr_loop_taus_zero:
  assumes "j \<le> n" and "j \<le> c"
  shows "snd (ForEachIndex j (qr_body_fn m n precision) (QrBlock_init a)) b c = 0"
  using assms
proof (induction j)
  case 0
  show ?case by (simp add: QrBlock_init_def)
next
  case (Suc j)
  then show ?case by (simp add: qr_body_fn_taus)
qed

text \<open>
  Claim C6.  Iteration \<open>j\<close> of the panel loop is the reference step: the matrix it returns is
  that of the reference step (the update with the columns \<open>\<le> j\<close> masked, then column \<open>j\<close>
  with rows \<open>< j\<close> kept, row \<open>j\<close> set to \<open>\<beta>\<close> and rows \<open>> j\<close> set to the tail of \<open>v\<close>);
  \<open>\<tau>\<close> is added at position \<open>j\<close> of the packed vector and the other positions are unchanged;
  in the loop started by \<^verbatim>\<open>QrBlock\<close> the positions \<open>\<ge> j\<close> are still zero before
  iteration \<open>j\<close>, so that the whole state after it is the reference step of the state before.
\<close>

theorem qr_body_fn_reference_step:
  assumes "j < n"
  shows "fst (qr_body_fn m n precision j s) = fst (reference_step m j s) \<and>
     (\<forall>b c. snd (qr_body_fn m n precision j s) b c =
             (if c = j then snd s b c + snd (reference_step m j s) b j else snd s b c)) \<and>
     (\<forall>b c. j \<le> c \<longrightarrow> snd (ForEachIndex j (qr_body_fn m n precision) (QrBlock_init a)) b c = 0) \<and>
     ForEachIndex (Suc j) (qr_body_fn m n precision) (QrBlock_init a) =
       reference_step m j (ForEachIndex j (qr_body_fn m n precision) (QrBlock_init a))"
proof -
  let ?s = "ForEachIndex j (qr_body_fn m n precision) (QrBlock_init a)"
  have A: "fst (qr_body_fn m n precision j s) = fst (reference_step m j s)"
    by (intro ext) (simp only: qr_body_fn_a [OF assms] reference_step_a)
  have A': "fst (qr_body_fn m n precision j ?s) = fst (reference_step m j ?s)"
    by (intro ext) (simp only: qr_body_fn_a [OF assms] reference_step_a)
  have B: "snd (qr_body_fn m n precision j s) b c =
      (if c = j then snd s b c + snd (reference_step m j s) b j else snd s b c)" for b c
    by (simp add: qr_body_fn_taus [OF assms] reference_step_taus)
  have Z: "snd ?s b c = 0" if "j \<le> c" for b c
    using assms that by (intro qr_loop_taus_zero) simp_all
  have "snd (qr_body_fn m n precision j ?s) = snd (reference_step m j ?s)"
    by (intro ext) (simp add: qr_body_fn_taus [OF assms] reference_step_taus Z)
  with A' have C: "qr_body_fn m n precision j ?s = reference_step m j ?s"
    by (simp add: prod_eq_iff)
  show ?thesis
    using A B Z C by simp
qed

lemma qr_loop_settled:
  assumes "j \<le> j'" and "j' \<le> n" and "c < j"
  shows "fst (ForEachIndex j' (qr_body_fn m n precision) s) b i c =
         fst (ForEachIndex j (qr_body_fn m n precision) s) b i c"
  using assms
proof (induction j')
  case 0
  then show ?case by simp
next
  case (Suc j')
  show ?case
  proof (cases "j = Suc j'")
    case True
    then show ?thesis by simp
  next
    case False
    then have "j \<le> j'" and "j' \<le> n" and "j' < n" and "c \<noteq> j'" and "\<not> j' < c"
      using Suc.prems by simp_all
    then show ?thesis using Suc.IH Suc.prems(3) by (simp add: qr_body_fn_a)
  qed
qed

lemma qr_loop_diagonal:
  assumes "j < p" and "p \<le> n"
  shows "fst (ForEachIndex p (qr_body_fn m n precision) s) b j j =
     House_beta (column (fst (ForEachIndex j (qr_body_fn m n precision) s)) j) j m b"
proof -
  have jn: "j < n" using assms by simp
  have "fst (ForEachIndex p (qr_body_fn m n precision) s) b j j =
      fst (ForEachIndex (Suc j) (qr_body_fn m n precision) s) b j j"
    using assms by (intro qr_loop_settled) simp_all
  also have "\<dots> = House_beta (column (fst (ForEachIndex j (qr_body_fn m n precision) s)) j) j m b"
    by (simp add: qr_body_fn_a [OF jn])
  finally show ?thesis .
qed

lemma House_beta_sign:
  assumes "k < m"
  shows "(dot m (masked_tail (x b) k) (masked_tail (x b) k) \<noteq> 0 \<longrightarrow>
            House_beta x k m b =
              - sign_of (x b k) * sqrt ((x b k)\<^sup>2 + dot m (masked_tail (x b) k) (masked_tail (x b) k)) \<and>
            (x b k < 0 \<longrightarrow> 0 < House_beta x k m b) \<and>
            (0 \<le> x b k \<longrightarrow> House_beta x k m b < 0)) \<and>
         (dot m (masked_tail (x b) k) (masked_tail (x b) k) = 0 \<longrightarrow> House_beta x k m b = x b k)"
proof -
  have al: "House_alpha x k m b = x b k"
    using assms by (rule House_alpha_in_range)
  have mu: "House_mu x k m b = sqrt ((x b k)\<^sup>2 + House_sigma x k m b)"
    by (simp add: House_mu_def Let_def al)
  show ?thesis
  proof (cases "House_sigma x k m b = 0")
    case True
    then have "House_beta x k m b = x b k"
      by (simp add: House_beta_def Let_def Select_def al)
    with True show ?thesis
      by (simp add: House_sigma_dot [symmetric])
  next
    case False
    then have be: "House_beta x k m b = - sign_of (x b k) * House_mu x k m b"
      by (simp add: House_beta_def Let_def Select_def al sign_of_def)
    have pos: "0 < House_mu x k m b"
      using House_mu_gt [OF False] by simp
    have "x b k < 0 \<longrightarrow> 0 < House_beta x k m b" and "0 \<le> x b k \<longrightarrow> House_beta x k m b < 0"
      using pos by (simp_all add: be sign_of_def)
    with False be show ?thesis
      by (simp add: House_sigma_dot [symmetric] mu)
  qed
qed

lemma sample_identity_beta: "House_beta (column sample_identity 0) 0 2 () = 1"
proof -
  have "dot 2 (masked_tail (column sample_identity 0 ()) 0) (masked_tail (column sample_identity 0 ()) 0) = 0"
    by (simp add: dot_def masked_tail_def column_def sample_identity_def matrix_of_def numeral_2_eq_2)
  moreover have "(0::nat) < 2" by simp
  ultimately have "House_beta (column sample_identity 0) 0 2 () = column sample_identity 0 () 0"
    using House_beta_sign [of 0 2 "column sample_identity 0" "()"] by blast
  then show ?thesis by (simp add: column_def sample_identity_def matrix_of_def)
qed

lemma sample_matrix_dot:
  "dot 2 (masked_tail (column sample_matrix 0 ()) 0) (masked_tail (column sample_matrix 0 ()) 0) = 16"
  by (simp add: dot_def masked_tail_def column_def sample_matrix_def matrix_of_def numeral_2_eq_2)

lemma sample_entries:
  "sample_matrix () 0 0 = 3" "sample_identity () 0 0 = 1"
  by (simp_all add: sample_matrix_def sample_identity_def matrix_of_def)

theorem qr_body_fn_reference_step_witness:
  "(0::nat) < 2 \<and>
   fst (qr_body_fn 2 2 HIGHEST 0 (QrBlock_init sample_matrix)) =
     fst (reference_step 2 0 (QrBlock_init sample_matrix)) \<and>
   snd (ForEachIndex 0 (qr_body_fn 2 2 HIGHEST) (QrBlock_init sample_matrix)) () 0 = 0 \<and>
   ForEachIndex (Suc 0) (qr_body_fn 2 2 HIGHEST) (QrBlock_init sample_matrix) =
     reference_step 2 0 (ForEachIndex 0 (qr_body_fn 2 2 HIGHEST) (QrBlock_init sample_matrix))"
proof -
  have j: "(0::nat) < 2" by simp
  note r = qr_body_fn_reference_step [OF j, of 2 HIGHEST "QrBlock_init sample_matrix" sample_matrix]
  have a: "fst (qr_body_fn 2 2 HIGHEST 0 (QrBlock_init sample_matrix)) =
      fst (reference_step 2 0 (QrBlock_init sample_matrix))"
    using r by (rule conjunct1)
  have z: "snd (ForEachIndex 0 (qr_body_fn 2 2 HIGHEST) (QrBlock_init sample_matrix)) () 0 = 0"
    using r [THEN conjunct2, THEN conjunct2, THEN conjunct1] by blast
  have c: "ForEachIndex (Suc 0) (qr_body_fn 2 2 HIGHEST) (QrBlock_init sample_matrix) =
      reference_step 2 0 (ForEachIndex 0 (qr_body_fn 2 2 HIGHEST) (QrBlock_init sample_matrix))"
    using r [THEN conjunct2, THEN conjunct2, THEN conjunct2] .
  show ?thesis
    by (intro conjI j a z c)
qed

section \<open>Properties of the block driver\<close>

lemma QrBlock_Inr:
  assumes "2 \<le> rank a_shape"
    and "\<And>s. GetShape_failure builder s = None"
    and "\<And>name s. ForEachIndex_failure builder name s = None"
  shows "\<exists>qr_block. QrBlock builder a_shape a precision = Inr qr_block"
  using assms(1)
  by (simp add: QrBlock_def Let_def ForEachIndex_status_def qr_body_fn_status_def
      House_status_def assms(2,3))

lemma QrBlock_Inl:
  assumes "QrBlock builder a_shape a precision = Inl e" and "2 \<le> rank a_shape"
  shows "builder_failure builder (element_type a_shape) e"
proof -
  let ?x = "Shape (element_type a_shape)
      (take (nat (int (rank a_shape) - 2)) (dimensions a_shape) @ [GetDimension a_shape (- 2)]) []"
  from assms consider "GetShape_failure builder a_shape = Some e"
    | "GetShape_failure builder ?x = Some e"
    | "ForEachIndex_failure builder ''qr'' a_shape = Some e"
    by (auto simp add: QrBlock_def Let_def ForEachIndex_status_def qr_body_fn_status_def
        House_status_def split: option.splits if_splits)
  then show ?thesis
  proof cases
    case 1
    then show ?thesis unfolding builder_failure_def by blast
  next
    case 2
    have "element_type ?x = element_type a_shape" by simp
    with 2 show ?thesis unfolding builder_failure_def by blast
  next
    case 3
    then show ?thesis unfolding builder_failure_def by blast
  qed
qed

lemma QrBlock_result:
  assumes "QrBlock builder a_shape a precision = Inr qr_block"
  shows "qr_block =
     ForEachIndex (min (nat (GetDimension a_shape (- 2))) (nat (GetDimension a_shape (- 1))))
       (qr_body_fn (nat (GetDimension a_shape (- 2))) (nat (GetDimension a_shape (- 1))) precision)
       (QrBlock_init a)"
  using assms by (auto simp add: QrBlock_def Let_def split: option.splits if_splits)

lemma qr_block_iteration_Inr:
  assumes "2 \<le> rank a_shape"
    and "\<And>s. GetShape_failure builder s = None"
    and "\<And>name s. ForEachIndex_failure builder name s = None"
  shows "\<exists>aq'. qr_block_iteration builder a_shape block_size precision i aq = Inr aq'"
proof -
  let ?m = "GetDimension a_shape (- 2)" and ?n = "GetDimension a_shape (- 1)"
  let ?k = "min block_size (min ?m ?n - i)"
  let ?s = "Shape (element_type a_shape)
      (take (nat (int (rank a_shape) - 2)) (dimensions a_shape) @ [?m - i, i + ?k - i]) []"
  have "rank ?s = rank a_shape"
    using assms(1) by (simp add: rank_def)
  with assms(1) obtain qr_block where
    "QrBlock builder ?s (SliceInMinorDims (fst aq) (nat i, nat i) (nat ?m, nat (i + ?k))) precision =
       Inr qr_block"
    using QrBlock_Inr [of ?s builder, OF _ assms(2,3)] by metis
  then show ?thesis
    by (simp add: qr_block_iteration_def Let_def CompactWYRepresentation_status_def
        ForEachIndex_status_def assms(3))
qed

lemma qr_block_iteration_Inl:
  assumes "qr_block_iteration builder a_shape block_size precision i aq = Inl e"
    and "2 \<le> rank a_shape"
  shows "builder_failure builder (element_type a_shape) e"
proof -
  let ?m = "GetDimension a_shape (- 2)" and ?n = "GetDimension a_shape (- 1)"
  let ?k = "min block_size (min ?m ?n - i)"
  let ?batch = "take (nat (int (rank a_shape) - 2)) (dimensions a_shape)"
  let ?s = "Shape (element_type a_shape) (?batch @ [?m - i, i + ?k - i]) []"
  let ?t = "Shape (element_type a_shape) (?batch @ [?k, ?k]) []"
  let ?panel = "SliceInMinorDims (fst aq) (nat i, nat i) (nat ?m, nat (i + ?k))"
  have rs: "rank ?s = rank a_shape"
    using assms(2) by (simp add: rank_def)
  from assms(1) consider "QrBlock builder ?s ?panel precision = Inl e"
    | "ForEachIndex_failure builder ''wy'' ?t = Some e"
    by (auto simp add: qr_block_iteration_def Let_def CompactWYRepresentation_status_def
        ForEachIndex_status_def split: sum.splits option.splits)
  then show ?thesis
  proof cases
    case 1
    have "builder_failure builder (element_type ?s) e"
      using 1 by (rule QrBlock_Inl) (simp only: rs assms(2))
    then show ?thesis by simp
  next
    case 2
    have "element_type ?t = element_type a_shape" by simp
    with 2 show ?thesis unfolding builder_failure_def by blast
  qed
qed

lemma BuildQrDecomposition_loop_step:
  assumes "i < min (GetDimension a_shape (- 2)) (GetDimension a_shape (- 1))" and "1 \<le> block_size"
    and "BuildQrDecomposition_loop builder a_shape block_size precision i aq = Inr aq_final"
  shows "\<exists>aq'. qr_block_iteration builder a_shape block_size precision i aq = Inr aq' \<and>
           BuildQrDecomposition_loop builder a_shape block_size precision (i + block_size) aq' =
             Inr aq_final"
proof (cases "qr_block_iteration builder a_shape block_size precision i aq")
  case (Inl e)
  then show ?thesis
    using assms by (subst (asm) BuildQrDecomposition_loop.simps) simp
next
  case (Inr aq')
  then show ?thesis
    using assms by (subst (asm) BuildQrDecomposition_loop.simps) simp
qed

lemma BuildQrDecomposition_loop_Inr:
  assumes "2 \<le> rank a_shape"
    and "\<And>s. GetShape_failure builder s = None"
    and "\<And>name s. ForEachIndex_failure builder name s = None"
  shows "\<exists>aq'. BuildQrDecomposition_loop builder a_shape block_size precision i aq = Inr aq'"
  using assms
proof (induction builder a_shape block_size precision i aq rule: BuildQrDecomposition_loop.induct)
  case (1 builder a_shape block_size precision i aq)
  show ?case
  proof (cases "i < min (GetDimension a_shape (- 2)) (GetDimension a_shape (- 1)) \<and> 1 \<le> block_size")
    case True
    obtain aq' where it: "qr_block_iteration builder a_shape block_size precision i aq = Inr aq'"
      using qr_block_iteration_Inr [OF "1.prems"] by blast
    from "1.IH" [OF True it "1.prems"] show ?thesis
      using True it by (subst BuildQrDecomposition_loop.simps) simp
  next
    case False
    then show ?thesis by (subst BuildQrDecomposition_loop.simps) auto
  qed
qed

lemma BuildQrDecomposition_loop_Inl:
  assumes "BuildQrDecomposition_loop builder a_shape block_size precision i aq = Inl e"
    and "2 \<le> rank a_shape"
  shows "builder_failure builder (element_type a_shape) e"
  using assms
proof (induction builder a_shape block_size precision i aq rule: BuildQrDecomposition_loop.induct)
  case (1 builder a_shape block_size precision i aq)
  show ?case
  proof (cases "i < min (GetDimension a_shape (- 2)) (GetDimension a_shape (- 1)) \<and> 1 \<le> block_size")
    case True
    show ?thesis
    proof (cases "qr_block_iteration builder a_shape block_size precision i aq")
      case (Inl e')
      then have "e' = e"
        using "1.prems"(1) True by (subst (asm) BuildQrDecomposition_loop.simps) simp
      with Inl show ?thesis
        using qr_block_iteration_Inl "1.prems"(2) by blast
    next
      case (Inr aq')
      then have "BuildQrDecomposition_loop builder a_shape block_size precision (i + block_size) aq' =
          Inl e"
        using "1.prems"(1) True by (subst (asm) BuildQrDecomposition_loop.simps) simp
      from "1.IH" [OF True Inr this "1.prems"(2)] show ?thesis .
    qed
  next
    case False
    then show ?thesis
      using "1.prems"(1) by (subst (asm) BuildQrDecomposition_loop.simps) auto
  qed
qed

lemma BuildQrDecomposition_Inr:
  assumes "2 \<le> rank a_shape" and "1 \<le> block_size"
    and "\<And>s. GetShape_failure builder s = None"
    and "\<And>name s. ForEachIndex_failure builder name s = None"
  shows "\<exists>l. BuildQrDecomposition builder a_shape a block_size precision = Inr l"
proof -
  obtain aq where
    "BuildQrDecomposition_loop builder a_shape block_size precision 0
       (a, \<lambda>b. IdentityMatrix (nat (GetDimension a_shape (- 2))) (nat (GetDimension a_shape (- 2)))) = Inr aq"
    using BuildQrDecomposition_loop_Inr [OF assms(1,3,4)] by blast
  then show ?thesis
    using assms(1,2) by (simp add: BuildQrDecomposition_def Let_def assms(3))
qed

lemma BuildQrDecomposition_Inl:
  assumes "BuildQrDecomposition builder a_shape a block_size precision = Inl e"
    and "2 \<le> rank a_shape" and "1 \<le> block_size"
  shows "builder_failure builder (element_type a_shape) e"
proof (cases "GetShape_failure builder a_shape")
  case None
  let ?q = "\<lambda>b. IdentityMatrix (nat (GetDimension a_shape (- 2))) (nat (GetDimension a_shape (- 2)))"
  have "BuildQrDecomposition_loop builder a_shape block_size precision 0 (a, ?q) = Inl e"
    using assms None by (auto simp add: BuildQrDecomposition_def Let_def split: sum.splits)
  then show ?thesis
    using assms(2) by (rule BuildQrDecomposition_loop_Inl)
next
  case (Some e')
  then have "e' = e"
    using assms(1) by (simp add: BuildQrDecomposition_def)
  with Some show ?thesis
    unfolding builder_failure_def by blast
qed

lemma BuildQrDecomposition_GetShape:
  assumes "GetShape_failure builder a_shape = Some e"
  shows "BuildQrDecomposition builder a_shape a block_size precision = Inl e"
  using assms by (simp add: BuildQrDecomposition_def)

lemma BuildQrDecomposition_rank:
  assumes "GetShape_failure builder a_shape = None" and "rank a_shape < 2"
  shows "BuildQrDecomposition builder a_shape a block_size precision =
     Inl (InvalidArgument ''Arguments to QR must have rank >= 2: got shape %s'' [ShapeArg a_shape])"
  using assms by (simp add: BuildQrDecomposition_def Let_def)

lemma BuildQrDecomposition_block_size:
  assumes "GetShape_failure builder a_shape = None" and "2 \<le> rank a_shape" and "block_size < 1"
  shows "BuildQrDecomposition builder a_shape a block_size precision =
     Inl (InvalidArgument ''block_size argument to QR must be >= 1; got %d'' [IntArg block_size])"
  using assms by (simp add: BuildQrDecomposition_def Let_def)

lemma BuildQrDecomposition_dots_replicate:
  "BuildQrDecomposition_dots a_shape block_size precision i =
     replicate (length (BuildQrDecomposition_dots a_shape block_size precision i)) precision"
proof (induction a_shape block_size precision i rule: BuildQrDecomposition_dots.induct)
  case (1 a_shape block_size precision i)
  show ?case
  proof (cases "i < min (GetDimension a_shape (- 2)) (GetDimension a_shape (- 1)) \<and> 1 \<le> block_size")
    case True
    have it: "qr_block_iteration_dots precision = replicate 9 precision"
      by (simp add: qr_block_iteration_dots_def QrBlock_dots_def qr_body_fn_dots_def
          CompactWYRepresentation_dots_def wy_body_fn_dots_def eval_nat_numeral)
    have un: "BuildQrDecomposition_dots a_shape block_size precision i =
        replicate 9 precision @ BuildQrDecomposition_dots a_shape block_size precision (i + block_size)"
      using True by (subst BuildQrDecomposition_dots.simps) (simp add: it)
    obtain n where r: "BuildQrDecomposition_dots a_shape block_size precision (i + block_size) =
        replicate n precision"
      using "1.IH" [OF True] by blast
    show ?thesis
      unfolding un r by (simp add: replicate_add)
  next
    case False
    then have "BuildQrDecomposition_dots a_shape block_size precision i = []"
      by (subst BuildQrDecomposition_dots.simps) auto
    then show ?thesis by simp
  qed
qed

lemma BuildQrDecomposition_result_dots:
  assumes "BuildQrDecomposition builder a_shape a block_size precision = Inr (qr, dots)"
  shows "dots = replicate (length dots) precision"
proof -
  have d: "dots = BuildQrDecomposition_dots a_shape block_size precision 0"
    using assms
    by (auto simp add: BuildQrDecomposition_def Let_def split: option.splits if_splits sum.splits)
  show ?thesis
    unfolding d by (rule BuildQrDecomposition_dots_replicate)
qed

section \<open>Properties of the expansion wrapper\<close>

lemma ExpandInstruction_failure:
  assumes "ExpandInstruction ext instruction st = (Inl e, st')"
  shows "parent_instructions st' = parent_instructions st \<and>
         module_computations st' = module_computations st \<and>
         computation_cache st' (''xla.qr_'' @ ShapeToString ext (shape (hd (operands instruction)))) = Some None \<and>
         build_expansion ext (''xla.qr_'' @ ShapeToString ext (shape (hd (operands instruction))))
           (shape (hd (operands instruction))) = Inl e"
  using assms
  by (auto simp add: ExpandInstruction_def Let_def split: option.splits sum.splits)

lemma build_expansion_failure:
  assumes "BuildQrDecomposition (XlaBuilder ext name) operand_shape (Parameter ext operand_shape)
             128 HIGHEST = Inl e"
  shows "build_expansion ext name operand_shape = Inl e"
  using assms by (simp add: build_expansion_def Let_def)

lemma emplace_null_idem:
  assumes "computation_cache st k = Some None"
  shows "st\<lparr>computation_cache := (computation_cache st)(k \<mapsto> None)\<rparr> = st"
  using assms by (simp add: fun_upd_idem)

lemma ExpandInstruction_miss:
  assumes "computation_cache st (''xla.qr_'' @ ShapeToString ext (shape (hd (operands instruction)))) = None \<or>
           computation_cache st (''xla.qr_'' @ ShapeToString ext (shape (hd (operands instruction)))) = Some None"
  shows "ExpandInstruction ext instruction st =
    (let name = ''xla.qr_'' @ ShapeToString ext (shape (hd (operands instruction)));
         st1 = st\<lparr>computation_cache := (computation_cache st)(name \<mapsto> None)\<rparr>
     in case build_expansion ext name (shape (hd (operands instruction))) of
          Inl e \<Rightarrow> (Inl e, st1)
        | Inr new_computation \<Rightarrow>
            (let call = HloInstruction kCall [] (shape instruction) (operands instruction)
                          (Some (length (module_computations st)))
             in (Inr call,
                 st\<lparr>module_computations := module_computations st @ [new_computation],
                    computation_cache := (computation_cache st)(name \<mapsto> Some (length (module_computations st))),
                    parent_instructions := parent_instructions st @ [call]\<rparr>)))"
  using assms
  by (auto simp add: ExpandInstruction_def Let_def emplace_null_idem split: sum.splits)

lemma ExpandInstruction_hit:
  assumes "computation_cache st (''xla.qr_'' @ ShapeToString ext (shape (hd (operands instruction)))) = Some (Some c)"
  shows "ExpandInstruction ext instruction st =
    (Inr (HloInstruction kCall [] (shape instruction) (operands instruction) (Some c)),
     st\<lparr>parent_instructions := parent_instructions st @
          [HloInstruction kCall [] (shape instruction) (operands instruction) (Some c)]\<rparr>)"
  using assms by (simp add: ExpandInstruction_def Let_def)

text \<open>
  Claim C8, as amended.  The block driver first queries the shape of its operand, and a failure
  of that query is returned unchanged, whatever its kind.  When the query succeeds, the driver
  fails with an invalid-argument error of its own for a rank below 2, and for a rank of at
  least 2 and a block size below 1.  For a rank of at least 2 and a block size of at least 1,
  every failure of the driver is the failure of an operation of the builder on a shape of the
  element type of the operand (a shape query, or the construction of the loop \<^verbatim>\<open>qr\<close> or
  \<^verbatim>\<open>wy\<close>), returned unchanged, and the driver succeeds when no operation of the builder
  fails.  The failure is returned by the expansion itself: on a key that holds no computation,
  \<^verbatim>\<open>ExpandInstruction\<close> fails with the failure of the driver, and whenever
  \<^verbatim>\<open>ExpandInstruction\<close> fails, no call instruction has been added and the module has no new
  computation.
\<close>

theorem BuildQrDecomposition_invalid_argument:
  "(GetShape_failure builder a_shape = Some e \<longrightarrow>
      BuildQrDecomposition builder a_shape a block_size precision = Inl e) \<and>
   (GetShape_failure builder a_shape = None \<and> rank a_shape < 2 \<longrightarrow>
      BuildQrDecomposition builder a_shape a block_size precision =
        Inl (InvalidArgument ''Arguments to QR must have rank >= 2: got shape %s''
               [ShapeArg a_shape])) \<and>
   (GetShape_failure builder a_shape = None \<and> 2 \<le> rank a_shape \<and> block_size < 1 \<longrightarrow>
      BuildQrDecomposition builder a_shape a block_size precision =
        Inl (InvalidArgument ''block_size argument to QR must be >= 1; got %d''
               [IntArg block_size])) \<and>
   (2 \<le> rank a_shape \<and> 1 \<le> block_size \<and>
    BuildQrDecomposition builder a_shape a block_size precision = Inl e \<longrightarrow>
      builder_failure builder (element_type a_shape) e) \<and>
   (2 \<le> rank a_shape \<and> 1 \<le> block_size \<and>
    (\<forall>s. GetShape_failure builder s = None) \<and>
    (\<forall>name s. ForEachIndex_failure builder name s = None) \<longrightarrow>
      \<not> isl (BuildQrDecomposition builder a_shape a block_size precision)) \<and>
   ((computation_cache st (''xla.qr_'' @ ShapeToString ext (shape (hd (operands instruction)))) = None \<or>
     computation_cache st (''xla.qr_'' @ ShapeToString ext (shape (hd (operands instruction)))) = Some None) \<and>
    BuildQrDecomposition
        (XlaBuilder ext (''xla.qr_'' @ ShapeToString ext (shape (hd (operands instruction)))))
        (shape (hd (operands instruction))) (Parameter ext (shape (hd (operands instruction))))
        128 HIGHEST = Inl e \<longrightarrow>
      fst (ExpandInstruction ext instruction st) = Inl e) \<and>
   (\<forall>e st'. ExpandInstruction ext instruction st = (Inl e, st') \<longrightarrow>
      parent_instructions st' = parent_instructions st \<and>
      module_computations st' = module_computations st)"
proof (intro conjI impI allI)
  assume "GetShape_failure builder a_shape = Some e"
  then show "BuildQrDecomposition builder a_shape a block_size precision = Inl e"
    by (rule BuildQrDecomposition_GetShape)
next
  assume "GetShape_failure builder a_shape = None \<and> rank a_shape < 2"
  then show "BuildQrDecomposition builder a_shape a block_size precision =
      Inl (InvalidArgument ''Arguments to QR must have rank >= 2: got shape %s'' [ShapeArg a_shape])"
    by (simp add: BuildQrDecomposition_rank)
next
  assume "GetShape_failure builder a_shape = None \<and> 2 \<le> rank a_shape \<and> block_size < 1"
  then show "BuildQrDecomposition builder a_shape a block_size precision =
      Inl (InvalidArgument ''block_size argument to QR must be >= 1; got %d'' [IntArg block_size])"
    by (simp add: BuildQrDecomposition_block_size)
next
  assume "2 \<le> rank a_shape \<and> 1 \<le> block_size \<and>
    BuildQrDecomposition builder a_shape a block_size precision = Inl e"
  then show "builder_failure builder (element_type a_shape) e"
    using BuildQrDecomposition_Inl by blast
next
  assume a: "2 \<le> rank a_shape \<and> 1 \<le> block_size \<and>
    (\<forall>s. GetShape_failure builder s = None) \<and>
    (\<forall>name s. ForEachIndex_failure builder name s = None)"
  have "\<exists>l. BuildQrDecomposition builder a_shape a block_size precision = Inr l"
    using a by (intro BuildQrDecomposition_Inr) simp_all
  then show "\<not> isl (BuildQrDecomposition builder a_shape a block_size precision)"
    by auto
next
  let ?s = "shape (hd (operands instruction))"
  let ?key = "''xla.qr_'' @ ShapeToString ext ?s"
  assume a: "(computation_cache st ?key = None \<or> computation_cache st ?key = Some None) \<and>
    BuildQrDecomposition (XlaBuilder ext ?key) ?s (Parameter ext ?s) 128 HIGHEST = Inl e"
  then have miss: "computation_cache st ?key = None \<or> computation_cache st ?key = Some None"
    by simp
  have b: "build_expansion ext ?key ?s = Inl e"
    using a by (intro build_expansion_failure) simp
  show "fst (ExpandInstruction ext instruction st) = Inl e"
    unfolding ExpandInstruction_miss [OF miss] Let_def b by simp
next
  fix e st'
  assume f: "ExpandInstruction ext instruction st = (Inl e, st')"
  from ExpandInstruction_failure [OF f]
  show "parent_instructions st' = parent_instructions st" and
    "module_computations st' = module_computations st"
    by simp_all
qed

lemma sample_ranks:
  "rank sample_shape = 2" "rank (Shape F32 [3] []) = 1" "rank (Shape S32 [2, 2] []) = 2"
  "rank (Shape F32 [3, 2] []) = 2"
  by (simp_all add: sample_shape_def rank_def)

lemma sample_vector_call_operand: "shape (hd (operands sample_vector_call)) = Shape F32 [3] []"
  by (simp add: sample_vector_call_def)

lemma sample_custom_call_operand:
  "shape (hd (operands sample_custom_call)) = sample_shape"
  "shape (hd (operands sample_custom_call2)) = sample_shape"
  by (simp_all add: sample_custom_call_def sample_custom_call2_def)

lemma sample_keys:
  "ShapeToString sample_externals sample_shape = ''f32[2,2]''"
  "ShapeToString sample_externals (Shape F32 [3] []) = ''f32[3]''"
  by (simp_all add: sample_externals_def sample_ranks) (simp add: sample_shape_def)

lemma sample_state_cache: "computation_cache sample_state k = None"
  by (simp add: sample_state_def)

lemma sample_builder_ok:
  "GetShape_failure sample_builder s = None" "ForEachIndex_failure sample_builder name s = None"
  "XlaBuilder sample_externals name = sample_builder"
  by (simp_all add: sample_builder_def sample_externals_def)

lemma sample_refusal:
  "BuildQrDecomposition sample_refusing_builder (Shape S32 [2, 2] []) a 128 precision =
     Inl (InvalidArgument ''Expected element type in shape to be floating; got %s''
            [ShapeArg (Shape S32 [2, 2] [])])"
proof -
  let ?s = "Shape S32 [2, 2] []"
  have d: "GetDimension ?s (- 2) = 2" "GetDimension ?s (- 1) = 2"
    by (simp_all add: rank_def GetDimension_def)
  have q: "QrBlock sample_refusing_builder ?s x precision =
      Inl (InvalidArgument ''Expected element type in shape to be floating; got %s'' [ShapeArg ?s])"
    for x :: "'a matrix"
    by (simp add: QrBlock_def Let_def rank_def ForEachIndex_status_def qr_body_fn_status_def
        House_status_def sample_refusing_builder_def)
  have it: "qr_block_iteration sample_refusing_builder ?s 128 precision 0 aq =
      Inl (InvalidArgument ''Expected element type in shape to be floating; got %s'' [ShapeArg ?s])"
    for aq :: "'a matrix \<times> 'a matrix"
    by (simp add: qr_block_iteration_def Let_def d rank_def q)
  have l: "BuildQrDecomposition_loop sample_refusing_builder ?s 128 precision 0 aq =
      Inl (InvalidArgument ''Expected element type in shape to be floating; got %s'' [ShapeArg ?s])"
    for aq :: "'a matrix \<times> 'a matrix"
    by (subst BuildQrDecomposition_loop.simps) (simp add: d it)
  have g: "GetShape_failure sample_refusing_builder ?s = None"
    by (simp add: sample_refusing_builder_def)
  show ?thesis
    by (simp add: BuildQrDecomposition_def Let_def rank_def l g)
qed

lemma sample_closed:
  "BuildQrDecomposition sample_closed_builder a_shape a block_size precision =
     Inl (Internal ''invalid handle'')"
  by (simp add: BuildQrDecomposition_def sample_closed_builder_def)

text \<open>
  Claim C8 as stated fails in both directions, since the driver also returns the failures of the
  builder.  With a builder that refuses a loop on 32-bit integers by an invalid-argument
  failure, the driver fails with that invalid-argument failure on an operand of shape
  \<^verbatim>\<open>s32[2,2]\<close> with block size 128, of rank 2.  With a builder whose shape query fails, the
  driver fails on a vector, of rank 1, with the failure of the query, which is not an
  invalid-argument error.
\<close>

theorem BuildQrDecomposition_builder_failure_counterexample:
  "2 \<le> rank (Shape S32 [2, 2] []) \<and> (1::int) \<le> 128 \<and>
   BuildQrDecomposition sample_refusing_builder (Shape S32 [2, 2] []) sample_matrix 128 HIGHEST =
     Inl (InvalidArgument ''Expected element type in shape to be floating; got %s''
            [ShapeArg (Shape S32 [2, 2] [])]) \<and>
   rank (Shape F32 [3] []) < 2 \<and>
   BuildQrDecomposition sample_closed_builder (Shape F32 [3] []) sample_matrix 128 HIGHEST =
     Inl (Internal ''invalid handle'')"
  by (simp add: sample_ranks sample_refusal sample_closed)

theorem BuildQrDecomposition_invalid_argument_witness:
  "GetShape_failure sample_closed_builder sample_shape = Some (Internal ''invalid handle'') \<and>
   BuildQrDecomposition sample_closed_builder sample_shape sample_matrix 128 HIGHEST =
     Inl (Internal ''invalid handle'') \<and>
   GetShape_failure sample_builder (Shape F32 [3] []) = None \<and> rank (Shape F32 [3] []) < 2 \<and>
   BuildQrDecomposition sample_builder (Shape F32 [3] []) sample_matrix 128 HIGHEST =
     Inl (InvalidArgument ''Arguments to QR must have rank >= 2: got shape %s''
            [ShapeArg (Shape F32 [3] [])]) \<and>
   GetShape_failure sample_builder sample_shape = None \<and> 2 \<le> rank sample_shape \<and> (0::int) < 1 \<and>
   BuildQrDecomposition sample_builder sample_shape sample_matrix 0 HIGHEST =
     Inl (InvalidArgument ''block_size argument to QR must be >= 1; got %d'' [IntArg 0]) \<and>
   2 \<le> rank (Shape S32 [2, 2] []) \<and> (1::int) \<le> 128 \<and>
   BuildQrDecomposition sample_refusing_builder (Shape S32 [2, 2] []) sample_matrix 128 HIGHEST =
     Inl (InvalidArgument ''Expected element type in shape to be floating; got %s''
            [ShapeArg (Shape S32 [2, 2] [])]) \<and>
   builder_failure sample_refusing_builder S32
     (InvalidArgument ''Expected element type in shape to be floating; got %s''
        [ShapeArg (Shape S32 [2, 2] [])]) \<and>
   (\<forall>s. GetShape_failure sample_builder s = None) \<and>
   (\<forall>name s. ForEachIndex_failure sample_builder name s = None) \<and>
   \<not> isl (BuildQrDecomposition sample_builder sample_shape sample_matrix 128 HIGHEST) \<and>
   computation_cache sample_state
     (''xla.qr_'' @ ShapeToString sample_externals (shape (hd (operands sample_vector_call)))) = None \<and>
   BuildQrDecomposition
       (XlaBuilder sample_externals
          (''xla.qr_'' @ ShapeToString sample_externals (shape (hd (operands sample_vector_call)))))
       (shape (hd (operands sample_vector_call)))
       (Parameter sample_externals (shape (hd (operands sample_vector_call)))) 128 HIGHEST =
     Inl (InvalidArgument ''Arguments to QR must have rank >= 2: got shape %s''
            [ShapeArg (Shape F32 [3] [])]) \<and>
   fst (ExpandInstruction sample_externals sample_vector_call sample_state) =
     Inl (InvalidArgument ''Arguments to QR must have rank >= 2: got shape %s''
            [ShapeArg (Shape F32 [3] [])]) \<and>
   parent_instructions (snd (ExpandInstruction sample_externals sample_vector_call sample_state)) =
     parent_instructions sample_state \<and>
   module_computations (snd (ExpandInstruction sample_externals sample_vector_call sample_state)) =
     module_computations sample_state"
proof -
  let ?closed = "Internal ''invalid handle''"
  let ?rank = "InvalidArgument ''Arguments to QR must have rank >= 2: got shape %s''
      [ShapeArg (Shape F32 [3] [])]"
  let ?refusal = "InvalidArgument ''Expected element type in shape to be floating; got %s''
      [ShapeArg (Shape S32 [2, 2] [])]"
  let ?key = "''xla.qr_'' @ ShapeToString sample_externals (shape (hd (operands sample_vector_call)))"
  have g1: "GetShape_failure sample_closed_builder sample_shape = Some ?closed"
    by (simp add: sample_closed_builder_def)
  have g2: "GetShape_failure sample_builder (Shape F32 [3] []) = None"
    and g3: "GetShape_failure sample_builder sample_shape = None"
    and g4: "\<forall>s. GetShape_failure sample_builder s = None"
    and g5: "\<forall>name s. ForEachIndex_failure sample_builder name s = None"
    by (simp_all add: sample_builder_ok)
  have r1: "rank (Shape F32 [3] []) < 2" and r2: "2 \<le> rank sample_shape"
    and r3: "2 \<le> rank (Shape S32 [2, 2] [])"
    by (simp_all add: sample_ranks)
  have b0: "(0::int) < 1" and b1: "(1::int) \<le> 128" by simp_all
  have c: "computation_cache sample_state ?key = None"
    by (rule sample_state_cache)
  have a1: "BuildQrDecomposition sample_closed_builder sample_shape sample_matrix 128 HIGHEST =
      Inl ?closed"
    using BuildQrDecomposition_invalid_argument
      [of sample_closed_builder sample_shape ?closed sample_matrix 128 HIGHEST
          sample_state sample_externals sample_vector_call] g1
    by blast
  have a2: "BuildQrDecomposition sample_builder (Shape F32 [3] []) sample_matrix 128 HIGHEST =
      Inl ?rank"
    using BuildQrDecomposition_invalid_argument
      [of sample_builder "Shape F32 [3] []" ?rank sample_matrix 128 HIGHEST
          sample_state sample_externals sample_vector_call] g2 r1
    by blast
  have a3: "BuildQrDecomposition sample_builder sample_shape sample_matrix 0 HIGHEST =
      Inl (InvalidArgument ''block_size argument to QR must be >= 1; got %d'' [IntArg 0])"
    using BuildQrDecomposition_invalid_argument
      [of sample_builder sample_shape ?rank sample_matrix 0 HIGHEST
          sample_state sample_externals sample_vector_call] g3 r2 b0
    by blast
  have a4: "BuildQrDecomposition sample_refusing_builder (Shape S32 [2, 2] []) sample_matrix 128
      HIGHEST = Inl ?refusal"
    by (rule sample_refusal)
  have "builder_failure sample_refusing_builder (element_type (Shape S32 [2, 2] [])) ?refusal"
    using BuildQrDecomposition_invalid_argument
      [of sample_refusing_builder "Shape S32 [2, 2] []" ?refusal sample_matrix 128 HIGHEST
          sample_state sample_externals sample_vector_call] r3 b1 a4
    by blast
  then have a5: "builder_failure sample_refusing_builder S32 ?refusal"
    by simp
  have a6: "\<not> isl (BuildQrDecomposition sample_builder sample_shape sample_matrix 128 HIGHEST)"
    using BuildQrDecomposition_invalid_argument
      [of sample_builder sample_shape ?rank sample_matrix 128 HIGHEST
          sample_state sample_externals sample_vector_call] r2 b1 g4 g5
    by blast
  have a7: "BuildQrDecomposition (XlaBuilder sample_externals ?key)
      (shape (hd (operands sample_vector_call)))
      (Parameter sample_externals (shape (hd (operands sample_vector_call)))) 128 HIGHEST = Inl ?rank"
    unfolding sample_vector_call_operand sample_builder_ok
    using BuildQrDecomposition_rank [OF g2 r1] .
  note t = BuildQrDecomposition_invalid_argument
      [of "XlaBuilder sample_externals ?key" "shape (hd (operands sample_vector_call))" ?rank
          "Parameter sample_externals (shape (hd (operands sample_vector_call)))" 128 HIGHEST
          sample_state sample_externals sample_vector_call]
  have a8: "fst (ExpandInstruction sample_externals sample_vector_call sample_state) = Inl ?rank"
    using t c a7 by blast
  then have f: "ExpandInstruction sample_externals sample_vector_call sample_state =
      (Inl ?rank, snd (ExpandInstruction sample_externals sample_vector_call sample_state))"
    by (simp add: prod_eq_iff)
  have a9: "parent_instructions (snd (ExpandInstruction sample_externals sample_vector_call sample_state)) =
      parent_instructions sample_state"
    and a10: "module_computations (snd (ExpandInstruction sample_externals sample_vector_call sample_state)) =
      module_computations sample_state"
    using t f by blast+
  show ?thesis
    by (intro conjI g1 a1 g2 r1 a2 g3 r2 b0 a3 r3 b1 a4 a5 g4 g5 a6 c a7 a8 a9 a10)
qed

section \<open>The cache of the expansion wrapper\<close>

lemma cache_consistent_fresh:
  assumes "computation_cache st = Map.empty"
  shows "cache_consistent ext (length (module_computations st)) st"
  using assms by (simp add: cache_consistent_def)

lemma build_expansion_Inr:
  assumes "build_expansion ext name operand_shape = Inr computation"
  shows "computation_name computation = name"
    and "BuildQrDecomposition (XlaBuilder ext name) operand_shape (Parameter ext operand_shape)
           128 HIGHEST = Inr (root computation, dot_precisions computation)"
  using assms
  by (auto simp add: build_expansion_def Let_def split: sum.splits option.splits)

lemma ExpandInstruction_cases:
  fixes ext :: "'b externals" and st :: "'b expander_state" and instruction :: hlo_instruction
  defines "name \<equiv> ''xla.qr_'' @ ShapeToString ext (shape (hd (operands instruction)))"
  obtains (hit) c where "computation_cache st name = Some (Some c)"
      and "ExpandInstruction ext instruction st =
             (Inr (HloInstruction kCall [] (shape instruction) (operands instruction) (Some c)),
              st\<lparr>parent_instructions := parent_instructions st @
                [HloInstruction kCall [] (shape instruction) (operands instruction) (Some c)]\<rparr>)"
    | (failure) e where "computation_cache st name = None \<or> computation_cache st name = Some None"
      and "ExpandInstruction ext instruction st =
             (Inl e, st\<lparr>computation_cache := (computation_cache st)(name \<mapsto> None)\<rparr>)"
    | (built) computation where
        "computation_cache st name = None \<or> computation_cache st name = Some None"
      and "build_expansion ext name (shape (hd (operands instruction))) = Inr computation"
      and "ExpandInstruction ext instruction st =
             (Inr (HloInstruction kCall [] (shape instruction) (operands instruction)
                     (Some (length (module_computations st)))),
              st\<lparr>module_computations := module_computations st @ [computation],
                 computation_cache := (computation_cache st)(name \<mapsto> Some (length (module_computations st))),
                 parent_instructions := parent_instructions st @
                   [HloInstruction kCall [] (shape instruction) (operands instruction)
                      (Some (length (module_computations st)))]\<rparr>)"
proof -
  consider (h) c where "computation_cache st name = Some (Some c)"
    | (m) "computation_cache st name = None \<or> computation_cache st name = Some None"
    by (cases "computation_cache st name") auto
  then show thesis
  proof cases
    case h
    then show thesis
      using hit ExpandInstruction_hit [of st ext instruction c] unfolding name_def by blast
  next
    case m
    note un = ExpandInstruction_miss [of st ext instruction, folded name_def, OF m, unfolded Let_def]
    show thesis
    proof (cases "build_expansion ext name (shape (hd (operands instruction)))")
      case (Inl e)
      show thesis
        by (rule failure [OF m]) (simp add: un Inl)
    next
      case (Inr computation)
      show thesis
        by (rule built [OF m Inr]) (simp add: un Inr)
    qed
  qed
qed

lemma cache_consistent_null:
  assumes inv: "cache_consistent ext n0 st"
    and miss: "computation_cache st name = None \<or> computation_cache st name = Some None"
  shows "cache_consistent ext n0 (st\<lparr>computation_cache := (computation_cache st)(name \<mapsto> None)\<rparr>)"
proof -
  have other: "computation_cache st name' = Some (Some c) \<Longrightarrow> name' \<noteq> name" for name' c
    using miss by auto
  show ?thesis
    using inv other unfolding cache_consistent_def by (auto split: if_splits)
qed

lemma cache_consistent_built:
  assumes inv: "cache_consistent ext n0 st"
    and miss: "computation_cache st name = None \<or> computation_cache st name = Some None"
    and nm: "computation_name computation = name"
    and ex: "expansion_of ext s computation"
  shows "cache_consistent ext n0
     (st\<lparr>module_computations := module_computations st @ [computation],
         computation_cache := (computation_cache st)(name \<mapsto> Some (length (module_computations st))),
         parent_instructions := calls\<rparr>)"
proof -
  let ?n = "length (module_computations st)"
  have other: "computation_cache st name' = Some (Some c) \<Longrightarrow> name' \<noteq> name" for name' c
    using miss by auto
  have n0: "n0 \<le> ?n"
    and entries: "\<And>name c. computation_cache st name = Some (Some c) \<Longrightarrow>
        n0 \<le> c \<and> c < ?n \<and> computation_name (module_computations st ! c) = name"
    and indices: "\<And>c. n0 \<le> c \<Longrightarrow> c < ?n \<Longrightarrow>
        computation_cache st (computation_name (module_computations st ! c)) = Some (Some c) \<and>
        (\<exists>s. expansion_of ext s (module_computations st ! c))"
    using inv unfolding cache_consistent_def by blast+
  have old: "computation_name (module_computations st ! c) \<noteq> name" if "n0 \<le> c" and "c < ?n" for c
    using indices [OF that] other by blast
  show ?thesis
    unfolding cache_consistent_def
    using n0 entries indices old nm ex
    by (auto simp add: nth_append less_Suc_eq split: if_splits)
qed

lemma cache_consistent_step:
  assumes inv: "cache_consistent ext n0 st"
  shows "cache_consistent ext n0 (snd (ExpandInstruction ext instruction st))"
proof (cases rule: ExpandInstruction_cases [of st ext instruction])
  case (hit c)
  show ?thesis
    using inv unfolding hit(2) by (simp add: cache_consistent_def)
next
  case (failure e)
  show ?thesis
    unfolding failure(2) snd_conv using inv failure(1) by (rule cache_consistent_null)
next
  case (built computation)
  have nm: "computation_name computation =
      ''xla.qr_'' @ ShapeToString ext (shape (hd (operands instruction)))"
    using build_expansion_Inr(1) [OF built(2)] .
  have ex: "expansion_of ext (shape (hd (operands instruction))) computation"
    unfolding expansion_of_def nm using build_expansion_Inr(2) [OF built(2)] by simp
  show ?thesis
    unfolding built(3) snd_conv using inv built(1) nm ex by (rule cache_consistent_built)
qed

lemma cache_consistent_run:
  assumes "cache_consistent ext n0 st"
  shows "cache_consistent ext n0 (expand_run ext instructions st)"
  using assms
  by (induction instructions arbitrary: st) (simp_all add: cache_consistent_step)

lemma ExpandInstruction_keeps:
  assumes "computation_cache st name = Some (Some c)"
  shows "computation_cache (snd (ExpandInstruction ext instruction st)) name = Some (Some c)"
proof (cases rule: ExpandInstruction_cases [of st ext instruction])
  case (hit c')
  show ?thesis unfolding hit(2) using assms by simp
next
  case (failure e)
  have "name \<noteq> ''xla.qr_'' @ ShapeToString ext (shape (hd (operands instruction)))"
    using failure(1) assms by auto
  then show ?thesis unfolding failure(2) snd_conv using assms by (simp del: append.simps)
next
  case (built computation)
  have "name \<noteq> ''xla.qr_'' @ ShapeToString ext (shape (hd (operands instruction)))"
    using built(1) assms by auto
  then show ?thesis unfolding built(3) snd_conv using assms by (simp del: append.simps)
qed

lemma ExpandInstruction_grows:
  "\<exists>added. module_computations (snd (ExpandInstruction ext instruction st)) =
     module_computations st @ added"
proof (cases rule: ExpandInstruction_cases [of st ext instruction])
  case (hit c')
  show ?thesis unfolding hit(2) by simp
next
  case (failure e)
  show ?thesis unfolding failure(2) by simp
next
  case (built computation)
  show ?thesis unfolding built(3) by simp
qed

lemma expand_run_keeps:
  assumes "computation_cache st name = Some (Some c)"
  shows "computation_cache (expand_run ext instructions st) name = Some (Some c)"
  using assms
  by (induction instructions arbitrary: st) (simp_all add: ExpandInstruction_keeps)

lemma expand_run_grows:
  "\<exists>added. module_computations (expand_run ext instructions st) = module_computations st @ added"
proof (induction instructions arbitrary: st)
  case Nil
  show ?case by simp
next
  case (Cons instruction instructions)
  obtain xs where xs: "module_computations (snd (ExpandInstruction ext instruction st)) =
      module_computations st @ xs"
    using ExpandInstruction_grows by blast
  obtain ys where "module_computations (expand_run ext instructions
      (snd (ExpandInstruction ext instruction st))) =
      module_computations (snd (ExpandInstruction ext instruction st)) @ ys"
    using Cons.IH by blast
  then show ?case
    unfolding xs by simp
qed

lemma ExpandInstruction_success:
  assumes "ExpandInstruction ext instruction st = (Inr call, st')"
  shows "\<exists>c. call = HloInstruction kCall [] (shape instruction) (operands instruction) (Some c) \<and>
     computation_cache st' (''xla.qr_'' @ ShapeToString ext (shape (hd (operands instruction)))) =
       Some (Some c)"
proof (cases rule: ExpandInstruction_cases [of st ext instruction])
  case (hit c)
  then show ?thesis using assms by auto
next
  case (failure e)
  then show ?thesis using assms by simp
next
  case (built computation)
  then show ?thesis using assms by auto
qed

lemma cache_consistent_distinct:
  assumes inv: "cache_consistent ext n0 st"
  shows "distinct (map computation_name (drop n0 (module_computations st)))"
proof -
  let ?cs = "module_computations st"
  have indices: "\<And>c. n0 \<le> c \<Longrightarrow> c < length ?cs \<Longrightarrow>
      computation_cache st (computation_name (?cs ! c)) = Some (Some c)"
    using inv unfolding cache_consistent_def by blast
  show ?thesis
    unfolding distinct_conv_nth
  proof (intro allI impI)
    fix i j
    assume i: "i < length (map computation_name (drop n0 ?cs))"
      and j: "j < length (map computation_name (drop n0 ?cs))" and ne: "i \<noteq> j"
    have li: "n0 + i < length ?cs" and lj: "n0 + j < length ?cs"
      using i j by simp_all
    have ni: "map computation_name (drop n0 ?cs) ! i = computation_name (?cs ! (n0 + i))"
      and nj: "map computation_name (drop n0 ?cs) ! j = computation_name (?cs ! (n0 + j))"
      using i j by simp_all
    show "map computation_name (drop n0 ?cs) ! i \<noteq> map computation_name (drop n0 ?cs) ! j"
    proof
      assume "map computation_name (drop n0 ?cs) ! i = map computation_name (drop n0 ?cs) ! j"
      then have "computation_name (?cs ! (n0 + i)) = computation_name (?cs ! (n0 + j))"
        unfolding ni nj .
      moreover have "computation_cache st (computation_name (?cs ! (n0 + i))) = Some (Some (n0 + i))"
        using indices [OF _ li] by simp
      moreover have "computation_cache st (computation_name (?cs ! (n0 + j))) = Some (Some (n0 + j))"
        using indices [OF _ lj] by simp
      ultimately show False
        using ne by simp
    qed
  qed
qed

text \<open>
  Claim C9.  Take an expander whose cache is empty, any matched nodes expanded first, then a
  matched node whose expansion succeeds, then any matched nodes expanded after it, and at last
  a matched node whose operand shape renders to the same string as that of the successful one.
  The key of the cache is \<^verbatim>\<open>xla.qr_\<close> followed by that string.  Both nodes are replaced by a
  call to one and the same computation, each on its own operands and with its own declared
  shape; the expansion of the last node adds no computation to the module, the key still holds
  that computation, and the computation is the one that the first call refers to.  It bears the
  key and holds the program that the block driver emits with block size 128 and the highest
  precision for an operand shape that renders to the same string, and every multiplication of
  that program carries the highest precision.  The computations that the expander has added to
  the module bear distinct names, so that at most one computation has been built for each key.
\<close>

theorem ExpandInstruction_shared_computation:
  assumes "computation_cache st0 = Map.empty"
    and "ExpandInstruction ext instruction1 (expand_run ext earlier st0) = (Inr call1, st1)"
    and "st2 = expand_run ext between st1"
    and "ShapeToString ext (shape (hd (operands instruction1))) =
         ShapeToString ext (shape (hd (operands instruction2)))"
  shows "\<exists>computation.
     call1 = HloInstruction kCall [] (shape instruction1) (operands instruction1) (Some computation) \<and>
     ExpandInstruction ext instruction2 st2 =
       (Inr (HloInstruction kCall [] (shape instruction2) (operands instruction2) (Some computation)),
        st2\<lparr>parent_instructions := parent_instructions st2 @
          [HloInstruction kCall [] (shape instruction2) (operands instruction2) (Some computation)]\<rparr>) \<and>
     computation_cache st2 (''xla.qr_'' @ ShapeToString ext (shape (hd (operands instruction1)))) =
       Some (Some computation) \<and>
     length (module_computations st0) \<le> computation \<and>
     computation < length (module_computations st1) \<and>
     module_computations st2 ! computation = module_computations st1 ! computation \<and>
     (\<exists>s. ShapeToString ext s = ShapeToString ext (shape (hd (operands instruction1))) \<and>
          expansion_of ext s (module_computations st1 ! computation)) \<and>
     dot_precisions (module_computations st1 ! computation) =
       replicate (length (dot_precisions (module_computations st1 ! computation))) HIGHEST \<and>
     distinct (map computation_name
       (drop (length (module_computations st0)) (module_computations st2)))"
proof -
  let ?n0 = "length (module_computations st0)"
  let ?st = "expand_run ext earlier st0"
  let ?s1 = "shape (hd (operands instruction1))"
  let ?key = "''xla.qr_'' @ ShapeToString ext ?s1"
  have key2: "''xla.qr_'' @ ShapeToString ext (shape (hd (operands instruction2))) = ?key"
    using assms(4) by simp
  have inv: "cache_consistent ext ?n0 ?st"
    using assms(1) by (intro cache_consistent_run cache_consistent_fresh)
  have st1: "st1 = snd (ExpandInstruction ext instruction1 ?st)"
    using assms(2) by simp
  have inv1: "cache_consistent ext ?n0 st1"
    unfolding st1 using inv by (rule cache_consistent_step)
  have inv2: "cache_consistent ext ?n0 st2"
    unfolding assms(3) using inv1 by (rule cache_consistent_run)
  obtain c where call1: "call1 = HloInstruction kCall [] (shape instruction1) (operands instruction1) (Some c)"
    and cache1: "computation_cache st1 ?key = Some (Some c)"
    using ExpandInstruction_success [OF assms(2)] by blast
  have lo: "?n0 \<le> c" and hi: "c < length (module_computations st1)"
    and nm: "computation_name (module_computations st1 ! c) = ?key"
    using inv1 cache1 unfolding cache_consistent_def by blast+
  obtain s where ex: "expansion_of ext s (module_computations st1 ! c)"
    using inv1 lo hi unfolding cache_consistent_def by blast
  have "''xla.qr_'' @ ShapeToString ext s = ?key"
    using ex nm unfolding expansion_of_def by simp
  then have render: "ShapeToString ext s = ShapeToString ext ?s1"
    by simp
  have dots: "dot_precisions (module_computations st1 ! c) =
      replicate (length (dot_precisions (module_computations st1 ! c))) HIGHEST"
    using ex unfolding expansion_of_def by (intro BuildQrDecomposition_result_dots) blast
  have cache2: "computation_cache st2 ?key = Some (Some c)"
    unfolding assms(3) using cache1 by (rule expand_run_keeps)
  obtain added where "module_computations st2 = module_computations st1 @ added"
    unfolding assms(3) using expand_run_grows by blast
  then have same: "module_computations st2 ! c = module_computations st1 ! c"
    using hi by (simp add: nth_append)
  have "computation_cache st2 (''xla.qr_'' @ ShapeToString ext (shape (hd (operands instruction2)))) =
      Some (Some c)"
    unfolding key2 by (rule cache2)
  note second = ExpandInstruction_hit [OF this]
  have dist: "distinct (map computation_name (drop ?n0 (module_computations st2)))"
    using inv2 by (rule cache_consistent_distinct)
  show ?thesis
    using call1 second cache2 lo hi same render ex dots dist by blast
qed


lemma sample_rank_failure:
  "build_expansion sample_externals name (Shape F32 [3] []) =
     Inl (InvalidArgument ''Arguments to QR must have rank >= 2: got shape %s''
            [ShapeArg (Shape F32 [3] [])])"
  by (intro build_expansion_failure)
    (simp add: sample_builder_ok BuildQrDecomposition_rank sample_ranks)

lemma sample_build_expansion:
  assumes "2 \<le> rank s"
  shows "\<exists>computation. build_expansion sample_externals name s = Inr computation"
proof -
  obtain l where
    "BuildQrDecomposition sample_builder s (Parameter sample_externals s) 128 HIGHEST = Inr l"
    using BuildQrDecomposition_Inr [of s 128 sample_builder "Parameter sample_externals s" HIGHEST] assms
    by (auto simp add: sample_builder_ok)
  then show ?thesis
    by (simp add: build_expansion_def Let_def sample_builder_ok)
      (simp add: sample_externals_def)
qed

lemma sample_earlier:
  "expand_run sample_externals [sample_vector_call] sample_state =
     sample_state\<lparr>computation_cache := (computation_cache sample_state)(''xla.qr_f32[3]'' \<mapsto> None)\<rparr>"
proof -
  let ?key = "''xla.qr_'' @ ShapeToString sample_externals (shape (hd (operands sample_vector_call)))"
  have miss: "computation_cache sample_state ?key = None \<or> computation_cache sample_state ?key = Some None"
    by (simp add: sample_state_cache)
  show ?thesis
    unfolding expand_run.simps ExpandInstruction_miss [OF miss] Let_def
      sample_vector_call_operand sample_rank_failure
    by (simp add: sample_keys)
qed

lemma sample_first_expansion:
  "fst (ExpandInstruction sample_externals sample_custom_call
          (expand_run sample_externals [sample_vector_call] sample_state)) =
     Inr (HloInstruction kCall [] (shape sample_custom_call) (operands sample_custom_call) (Some 0))"
proof -
  let ?st = "expand_run sample_externals [sample_vector_call] sample_state"
  let ?key = "''xla.qr_'' @ ShapeToString sample_externals (shape (hd (operands sample_custom_call)))"
  have miss: "computation_cache ?st ?key = None \<or> computation_cache ?st ?key = Some None"
    unfolding sample_earlier by (simp add: sample_state_cache sample_custom_call_operand sample_keys)
  obtain computation where b:
    "build_expansion sample_externals ?key (shape (hd (operands sample_custom_call))) = Inr computation"
    using sample_build_expansion [of sample_shape ?key]
    by (auto simp add: sample_custom_call_operand sample_ranks)
  have n: "length (module_computations ?st) = 0"
    unfolding sample_earlier by (simp add: sample_state_def)
  show ?thesis
    unfolding ExpandInstruction_miss [OF miss] Let_def b n by simp
qed

lemma sample_dots:
  assumes "ShapeToString sample_externals s = ''f32[2,2]''"
  shows "BuildQrDecomposition_dots s 128 precision 0 = replicate 9 precision"
proof -
  have r: "rank s = 2" and d: "dimensions s = [2, 2]"
    using assms by (auto simp add: sample_externals_def split: if_splits)
  have g: "GetDimension s (- 2) = 2" "GetDimension s (- 1) = 2"
    by (simp_all add: GetDimension_def r d)
  have "BuildQrDecomposition_dots s 128 precision 128 = []"
    by (subst BuildQrDecomposition_dots.simps) (simp add: g)
  then show ?thesis
    by (subst BuildQrDecomposition_dots.simps)
      (simp add: g qr_block_iteration_dots_def QrBlock_dots_def qr_body_fn_dots_def
        CompactWYRepresentation_dots_def wy_body_fn_dots_def eval_nat_numeral)
qed

theorem ExpandInstruction_shared_computation_witness:
  "computation_cache sample_state = Map.empty \<and>
   ExpandInstruction sample_externals sample_custom_call
       (expand_run sample_externals [sample_vector_call] sample_state) =
     (Inr (HloInstruction kCall [] (shape sample_custom_call) (operands sample_custom_call) (Some 0)),
      snd (ExpandInstruction sample_externals sample_custom_call
             (expand_run sample_externals [sample_vector_call] sample_state))) \<and>
   ShapeToString sample_externals (shape (hd (operands sample_custom_call))) =
     ShapeToString sample_externals (shape (hd (operands sample_custom_call2))) \<and>
   fst (ExpandInstruction sample_externals sample_custom_call2
          (expand_run sample_externals [sample_tall_call]
             (snd (ExpandInstruction sample_externals sample_custom_call
                     (expand_run sample_externals [sample_vector_call] sample_state))))) =
     Inr (HloInstruction kCall [] (shape sample_custom_call2) (operands sample_custom_call2) (Some 0)) \<and>
   module_computations (snd (ExpandInstruction sample_externals sample_custom_call2
          (expand_run sample_externals [sample_tall_call]
             (snd (ExpandInstruction sample_externals sample_custom_call
                     (expand_run sample_externals [sample_vector_call] sample_state)))))) =
     module_computations (expand_run sample_externals [sample_tall_call]
             (snd (ExpandInstruction sample_externals sample_custom_call
                     (expand_run sample_externals [sample_vector_call] sample_state)))) \<and>
   dot_precisions (module_computations
       (snd (ExpandInstruction sample_externals sample_custom_call
               (expand_run sample_externals [sample_vector_call] sample_state))) ! 0) =
     replicate 9 HIGHEST \<and>
   distinct (map computation_name
     (module_computations (expand_run sample_externals [sample_tall_call]
             (snd (ExpandInstruction sample_externals sample_custom_call
                     (expand_run sample_externals [sample_vector_call] sample_state))))))"
proof -
  let ?st = "expand_run sample_externals [sample_vector_call] sample_state"
  let ?st1 = "snd (ExpandInstruction sample_externals sample_custom_call ?st)"
  let ?st2 = "expand_run sample_externals [sample_tall_call] ?st1"
  let ?call1 = "HloInstruction kCall [] (shape sample_custom_call) (operands sample_custom_call) (Some 0)"
  have e: "computation_cache sample_state = Map.empty"
    by (simp add: sample_state_def)
  have k: "ShapeToString sample_externals (shape (hd (operands sample_custom_call))) =
      ShapeToString sample_externals (shape (hd (operands sample_custom_call2)))"
    by (simp add: sample_custom_call_operand)
  have f: "ExpandInstruction sample_externals sample_custom_call ?st = (Inr ?call1, ?st1)"
    using sample_first_expansion by (simp add: prod_eq_iff)
  obtain c where c1: "?call1 =
        HloInstruction kCall [] (shape sample_custom_call) (operands sample_custom_call) (Some c)"
    and second: "ExpandInstruction sample_externals sample_custom_call2 ?st2 =
       (Inr (HloInstruction kCall [] (shape sample_custom_call2) (operands sample_custom_call2) (Some c)),
        ?st2\<lparr>parent_instructions := parent_instructions ?st2 @
          [HloInstruction kCall [] (shape sample_custom_call2) (operands sample_custom_call2) (Some c)]\<rparr>)"
    and built: "\<exists>s. ShapeToString sample_externals s =
          ShapeToString sample_externals (shape (hd (operands sample_custom_call))) \<and>
        expansion_of sample_externals s (module_computations ?st1 ! c)"
    and dist: "distinct (map computation_name
        (drop (length (module_computations sample_state)) (module_computations ?st2)))"
    using ExpandInstruction_shared_computation [OF e f refl k] by blast
  have c: "c = 0"
    using c1 by simp
  obtain s where s: "ShapeToString sample_externals s = ''f32[2,2]''"
    and ex: "expansion_of sample_externals s (module_computations ?st1 ! 0)"
    using built unfolding c by (auto simp add: sample_custom_call_operand sample_keys)
  have "dot_precisions (module_computations ?st1 ! 0) = BuildQrDecomposition_dots s 128 HIGHEST 0"
    using ex unfolding expansion_of_def
    by (auto simp add: BuildQrDecomposition_def Let_def split: option.splits if_splits sum.splits)
  then have d: "dot_precisions (module_computations ?st1 ! 0) = replicate 9 HIGHEST"
    using sample_dots [OF s] by simp
  have s1: "fst (ExpandInstruction sample_externals sample_custom_call2 ?st2) =
      Inr (HloInstruction kCall [] (shape sample_custom_call2) (operands sample_custom_call2) (Some 0))"
    and s2: "module_computations (snd (ExpandInstruction sample_externals sample_custom_call2 ?st2)) =
      module_computations ?st2"
    unfolding second c by simp_all
  have s3: "distinct (map computation_name (module_computations ?st2))"
    using dist by (simp add: sample_state_def)
  show ?thesis
    by (intro conjI e f k s1 s2 d s3)
qed


section \<open>The diagonal of the emitted \<open>R\<close>\<close>

lemma block_states_loop:
  assumes "1 \<le> block_size"
    and "int t * block_size < min (GetDimension a_shape (- 2)) (GetDimension a_shape (- 1))"
    and "block_states builder a_shape block_size precision a t = Inr aq"
  shows "BuildQrDecomposition_loop builder a_shape block_size precision 0
           (a, (\<lambda>b. IdentityMatrix (nat (GetDimension a_shape (- 2))) (nat (GetDimension a_shape (- 2))))) =
         BuildQrDecomposition_loop builder a_shape block_size precision (int t * block_size) aq"
  using assms(2,3)
proof (induction t arbitrary: aq)
  case 0
  then show ?case by simp
next
  case (Suc t)
  have step: "int (Suc t) * block_size = int t * block_size + block_size"
    by (simp add: algebra_simps)
  have lt: "int t * block_size < min (GetDimension a_shape (- 2)) (GetDimension a_shape (- 1))"
    using Suc.prems(1) assms(1) unfolding step by linarith
  obtain aq0 where s0: "block_states builder a_shape block_size precision a t = Inr aq0"
    and it: "qr_block_iteration builder a_shape block_size precision (int t * block_size) aq0 = Inr aq"
    using Suc.prems(2) by (auto split: sum.splits)
  have "BuildQrDecomposition_loop builder a_shape block_size precision (int t * block_size) aq0 =
      BuildQrDecomposition_loop builder a_shape block_size precision (int t * block_size + block_size) aq"
    using lt assms(1) it by (subst BuildQrDecomposition_loop.simps) simp
  with Suc.IH [OF lt s0] show ?case
    unfolding step by simp
qed

lemma block_states_Inr:
  assumes bs: "1 \<le> block_size"
    and ok: "BuildQrDecomposition_loop builder a_shape block_size precision 0
           (a, (\<lambda>b. IdentityMatrix (nat (GetDimension a_shape (- 2))) (nat (GetDimension a_shape (- 2))))) =
         Inr aq_final"
    and lt: "int t * block_size < min (GetDimension a_shape (- 2)) (GetDimension a_shape (- 1))"
  shows "\<exists>aq. block_states builder a_shape block_size precision a t = Inr aq"
  using lt
proof (induction t)
  case 0
  show ?case by simp
next
  case (Suc t)
  have step: "int (Suc t) * block_size = int t * block_size + block_size"
    by (simp add: algebra_simps)
  have lt': "int t * block_size < min (GetDimension a_shape (- 2)) (GetDimension a_shape (- 1))"
    using Suc.prems bs unfolding step by linarith
  obtain aq where st: "block_states builder a_shape block_size precision a t = Inr aq"
    using Suc.IH [OF lt'] by blast
  have "BuildQrDecomposition_loop builder a_shape block_size precision (int t * block_size) aq =
      Inr aq_final"
    using block_states_loop [OF bs lt' st] ok by simp
  then obtain aq' where
    "qr_block_iteration builder a_shape block_size precision (int t * block_size) aq = Inr aq'"
    using BuildQrDecomposition_loop_step [OF lt' bs] by blast
  then show ?case
    using st by simp
qed

lemma GetDimension_minor:
  assumes "dimensions s = batch @ [x, y]"
  shows "GetDimension s (- 2) = x" and "GetDimension s (- 1) = y"
proof -
  have "nat (- 2 + int (length batch + 2)) = length batch"
    and "nat (- 1 + int (length batch + 2)) = Suc (length batch)"
    by simp_all
  then show "GetDimension s (- 2) = x" and "GetDimension s (- 1) = y"
    by (simp_all add: GetDimension_def rank_def assms nth_append)
qed

lemma qr_block_iteration_a:
  assumes it: "qr_block_iteration builder a_shape block_size precision i aq = Inr aq'"
    and i0: "0 \<le> i"
    and m: "m = GetDimension a_shape (- 2)" and n: "n = GetDimension a_shape (- 1)"
    and ip: "i < min m n" and bs: "1 \<le> block_size"
    and k: "k = min block_size (min m n - i)"
  shows "c < nat i \<Longrightarrow> fst aq' b r c = fst aq b r c"
    and "r < nat (m - i) \<Longrightarrow> c < nat k \<Longrightarrow>
         fst aq' b (nat i + r) (nat i + c) =
         fst (ForEachIndex (nat k) (qr_body_fn (nat (m - i)) (nat k) precision)
                (QrBlock_init (SliceInMinorDims (fst aq) (nat i, nat i) (nat m, nat (i + k))))) b r c"
proof -
  let ?batch = "take (nat (int (rank a_shape) - 2)) (dimensions a_shape)"
  let ?s = "Shape (element_type a_shape) (?batch @ [m - i, i + k - i]) []"
  let ?panel = "SliceInMinorDims (fst aq) (nat i, nat i) (nat m, nat (i + k))"
  let ?V = "ForEachIndex (nat k) (qr_body_fn (nat (m - i)) (nat k) precision) (QrBlock_init ?panel)"
  have kpos: "1 \<le> k" and km: "k \<le> m - i"
    using ip bs k by linarith+
  have d2: "GetDimension ?s (- 2) = m - i" and d1: "GetDimension ?s (- 1) = k"
    using GetDimension_minor [of ?s ?batch "m - i" "i + k - i"] by simp_all
  have mn: "min (nat (m - i)) (nat k) = nat k"
    using km by simp
  note unfolded = it [unfolded qr_block_iteration_def Let_def, folded m n, folded k]
  obtain qr_block where Q0: "QrBlock builder ?s ?panel precision = Inr qr_block"
    using unfolded by (cases "QrBlock builder ?s ?panel precision") simp_all
  have Q: "QrBlock builder ?s ?panel precision = Inr ?V"
    using QrBlock_result [OF Q0] Q0 unfolding d2 d1 mn by simp
  have W: "CompactWYRepresentation_status builder (element_type a_shape) ?batch k = None"
    using unfolded unfolding Q
    by (cases "CompactWYRepresentation_status builder (element_type a_shape) ?batch k") simp_all
  have nk: "nat (i + k) = nat i + nat k"
    using i0 kpos by (simp add: nat_add_distrib)
  note result = unfolded [unfolded Q W]
  {
    assume "c < nat i"
    then show "fst aq' b r c = fst aq b r c"
      using result by (auto simp add: UpdateSliceInMinorDims_def nk)
  next
    assume "r < nat (m - i)" and "c < nat k"
    then show "fst aq' b (nat i + r) (nat i + c) = fst ?V b r c"
      using result by (auto simp add: UpdateSliceInMinorDims_def nk)
  }
qed

lemma BuildQrDecomposition_loop_keeps:
  assumes "0 \<le> i"
    and "BuildQrDecomposition_loop builder a_shape block_size precision i aq = Inr aq_final"
    and "c < nat i"
  shows "fst aq_final b r c = fst aq b r c"
  using assms
proof (induction builder a_shape block_size precision i aq rule: BuildQrDecomposition_loop.induct)
  case (1 builder a_shape block_size precision i aq)
  let ?m = "GetDimension a_shape (- 2)" and ?n = "GetDimension a_shape (- 1)"
  show ?case
  proof (cases "i < min ?m ?n \<and> 1 \<le> block_size")
    case True
    obtain aq' where it: "qr_block_iteration builder a_shape block_size precision i aq = Inr aq'"
      and rest: "BuildQrDecomposition_loop builder a_shape block_size precision (i + block_size) aq' =
        Inr aq_final"
      using BuildQrDecomposition_loop_step [OF _ _ "1.prems"(2)] True by blast
    have i': "0 \<le> i + block_size" and c': "c < nat (i + block_size)"
      using "1.prems"(1,3) True by linarith+
    have "fst aq_final b r c = fst aq' b r c"
      using "1.IH" [OF True it i' rest c'] .
    also have "\<dots> = fst aq b r c"
      using qr_block_iteration_a(1) [OF it "1.prems"(1) refl refl _ _ refl "1.prems"(3)] True
      by simp
    finally show ?thesis .
  next
    case False
    then have "aq_final = aq"
      using "1.prems"(2) by (subst (asm) BuildQrDecomposition_loop.simps) auto
    then show ?thesis by simp
  qed
qed

lemma BuildQrDecomposition_Inr_loop:
  assumes "BuildQrDecomposition builder a_shape a block_size precision = Inr ((q, r), dots)"
  shows "1 \<le> block_size"
    and "\<exists>aq_final. BuildQrDecomposition_loop builder a_shape block_size precision 0
           (a, (\<lambda>b. IdentityMatrix (nat (GetDimension a_shape (- 2))) (nat (GetDimension a_shape (- 2))))) =
             Inr aq_final \<and> r = UpperTriangle (fst aq_final)"
  using assms
  by (auto simp add: BuildQrDecomposition_def Let_def split: option.splits if_splits sum.splits)

lemma BuildQrDecomposition_diagonal:
  assumes ok: "BuildQrDecomposition builder a_shape a block_size precision = Inr ((q, r), dots)"
    and st: "block_states builder a_shape block_size precision a t = Inr aq"
    and i: "i = int t * block_size"
    and m: "m = GetDimension a_shape (- 2)" and n: "n = GetDimension a_shape (- 1)"
    and ip: "i < min m n"
    and k: "k = min block_size (min m n - i)"
    and j: "j < nat k"
  shows "r b (nat i + j) (nat i + j) =
     fst (ForEachIndex (nat k) (qr_body_fn (nat (m - i)) (nat k) precision)
            (QrBlock_init (SliceInMinorDims (fst aq) (nat i, nat i) (nat m, nat (i + k))))) b j j"
proof -
  let ?q0 = "\<lambda>b. IdentityMatrix (nat (GetDimension a_shape (- 2))) (nat (GetDimension a_shape (- 2)))"
  note bs = BuildQrDecomposition_Inr_loop(1) [OF ok]
  obtain aqf where l0: "BuildQrDecomposition_loop builder a_shape block_size precision 0 (a, ?q0) = Inr aqf"
    and r: "r = UpperTriangle (fst aqf)"
    using BuildQrDecomposition_Inr_loop(2) [OF ok] by blast
  have li: "BuildQrDecomposition_loop builder a_shape block_size precision i aq = Inr aqf"
    using block_states_loop [OF bs _ st] l0 ip unfolding i m n by simp
  have i0: "0 \<le> i"
    using bs unfolding i by simp
  obtain aq' where it: "qr_block_iteration builder a_shape block_size precision i aq = Inr aq'"
    and rest: "BuildQrDecomposition_loop builder a_shape block_size precision (i + block_size) aq' = Inr aqf"
    using BuildQrDecomposition_loop_step [OF _ bs li] ip unfolding m n by blast
  have kpos: "1 \<le> k" and km: "k \<le> m - i" and kb: "k \<le> block_size"
    using ip bs k by linarith+
  have col: "nat i + j < nat (i + block_size)"
    using j kb i0 by linarith
  have "r b (nat i + j) (nat i + j) = fst aqf b (nat i + j) (nat i + j)"
    by (simp add: r UpperTriangle_def)
  also have "\<dots> = fst aq' b (nat i + j) (nat i + j)"
    using BuildQrDecomposition_loop_keeps [OF _ rest col] i0 bs by simp
  also have "\<dots> = fst (ForEachIndex (nat k) (qr_body_fn (nat (m - i)) (nat k) precision)
            (QrBlock_init (SliceInMinorDims (fst aq) (nat i, nat i) (nat m, nat (i + k))))) b j j"
    using j km by (intro qr_block_iteration_a(2) [OF it i0 m n ip bs k]) linarith+
  finally show ?thesis .
qed

lemma House_beta_sigma_sign:
  assumes "k < m"
  shows "(House_sigma x k m b \<noteq> 0 \<longrightarrow>
            House_beta x k m b = - sign_of (x b k) * sqrt ((x b k)\<^sup>2 + House_sigma x k m b) \<and>
            (x b k < 0 \<longrightarrow> 0 < House_beta x k m b) \<and>
            (0 \<le> x b k \<longrightarrow> House_beta x k m b < 0)) \<and>
         (House_sigma x k m b = 0 \<longrightarrow> House_beta x k m b = x b k)"
proof -
  have al: "House_alpha x k m b = x b k"
    using assms by (rule House_alpha_in_range)
  have mu: "House_mu x k m b = sqrt ((x b k)\<^sup>2 + House_sigma x k m b)"
    by (simp add: House_mu_def Let_def al)
  show ?thesis
  proof (cases "House_sigma x k m b = 0")
    case True
    then have "House_beta x k m b = x b k"
      by (simp add: House_beta_def Let_def Select_def al)
    with True show ?thesis
      by simp
  next
    case False
    then have be: "House_beta x k m b = - sign_of (x b k) * House_mu x k m b"
      by (simp add: House_beta_def Let_def Select_def al sign_of_def)
    have pos: "0 < House_mu x k m b"
      using House_mu_gt [OF False] by simp
    have "x b k < 0 \<longrightarrow> 0 < House_beta x k m b" and "0 \<le> x b k \<longrightarrow> House_beta x k m b < 0"
      using pos by (simp_all add: be sign_of_def)
    with False be show ?thesis
      by (simp add: mu)
  qed
qed

lemma BuildQrDecomposition_diagonal_sign_at:
  assumes "BuildQrDecomposition builder a_shape a block_size precision = Inr ((q, r), dots)"
    and "block_states builder a_shape block_size precision a t = Inr aq"
    and "i = int t * block_size"
    and "m = GetDimension a_shape (- 2)" and "n = GetDimension a_shape (- 1)"
    and "i < min m n"
    and "k = min block_size (min m n - i)"
    and "j < nat k"
  shows "let panel = SliceInMinorDims (fst aq) (nat i, nat i) (nat m, nat (i + k));
             A = fst (ForEachIndex j (qr_body_fn (nat (m - i)) (nat k) precision) (QrBlock_init panel));
             alpha = A b j j;
             sigma = House_sigma (column A j) j (nat (m - i)) b
         in (sigma \<noteq> 0 \<longrightarrow>
               r b (nat i + j) (nat i + j) = - sign_of alpha * sqrt (alpha\<^sup>2 + sigma) \<and>
               (alpha < 0 \<longrightarrow> 0 < r b (nat i + j) (nat i + j)) \<and>
               (0 \<le> alpha \<longrightarrow> r b (nat i + j) (nat i + j) < 0)) \<and>
            (sigma = 0 \<longrightarrow> r b (nat i + j) (nat i + j) = alpha)"
proof -
  let ?panel = "SliceInMinorDims (fst aq) (nat i, nat i) (nat m, nat (i + k))"
  let ?body = "qr_body_fn (nat (m - i)) (nat k) precision"
  let ?A = "fst (ForEachIndex j ?body (QrBlock_init ?panel))"
  note bs = BuildQrDecomposition_Inr_loop(1) [OF assms(1)]
  have km: "k \<le> m - i"
    using assms(6,7) bs by linarith
  have jm: "j < nat (m - i)"
    using assms(8) km by linarith
  have "r b (nat i + j) (nat i + j) = fst (ForEachIndex (nat k) ?body (QrBlock_init ?panel)) b j j"
    using assms by (rule BuildQrDecomposition_diagonal)
  also have "\<dots> = House_beta (column ?A j) j (nat (m - i)) b"
    using assms(8) by (intro qr_loop_diagonal) simp_all
  finally have r: "r b (nat i + j) (nat i + j) = House_beta (column ?A j) j (nat (m - i)) b" .
  have c: "column ?A j b j = ?A b j j" by (simp add: column_def)
  show ?thesis
    unfolding Let_def r
    by (rule House_beta_sigma_sign [OF jm, of "column ?A j" b, unfolded c])
qed

lemma sample_BuildQrDecomposition:
  "BuildQrDecomposition sample_builder sample_shape a 128 HIGHEST =
     Inr ((fst (fst (projr (BuildQrDecomposition sample_builder sample_shape a 128 HIGHEST))),
           snd (fst (projr (BuildQrDecomposition sample_builder sample_shape a 128 HIGHEST)))),
          snd (projr (BuildQrDecomposition sample_builder sample_shape a 128 HIGHEST)))"
proof -
  obtain l where "BuildQrDecomposition sample_builder sample_shape a 128 HIGHEST = Inr l"
    using BuildQrDecomposition_Inr [of sample_shape 128 sample_builder a HIGHEST]
    by (auto simp add: sample_ranks sample_builder_ok)
  then show ?thesis by simp
qed

lemma sample_block_dims:
  "GetDimension sample_shape (- 2) = 2" "GetDimension sample_shape (- 1) = 2"
  by (simp_all add: sample_shape_def rank_def GetDimension_def)

lemma sample_R00:
  "snd (fst (projr (BuildQrDecomposition sample_builder sample_shape a 128 HIGHEST))) () 0 0 =
     House_beta (column a 0) 0 2 ()"
proof -
  have st: "block_states sample_builder sample_shape 128 HIGHEST a 0 =
      Inr (a, (\<lambda>b. IdentityMatrix (nat (GetDimension sample_shape (- 2))) (nat (GetDimension sample_shape (- 2)))))"
    by simp
  have i: "(0::int) = int 0 * 128" and k: "(2::int) = min 128 (min 2 2 - 0)" by simp_all
  have "snd (fst (projr (BuildQrDecomposition sample_builder sample_shape a 128 HIGHEST))) ()
        (nat 0 + 0) (nat 0 + 0) =
      fst (ForEachIndex (nat 2) (qr_body_fn (nat (2 - 0)) (nat 2) HIGHEST)
            (QrBlock_init (SliceInMinorDims a (nat 0, nat 0) (nat 2, nat (0 + 2))))) () 0 0"
    using BuildQrDecomposition_diagonal [OF sample_BuildQrDecomposition st i
        sample_block_dims(1) [symmetric] sample_block_dims(2) [symmetric] _ k, of 0 "()"]
    by simp
  also have "SliceInMinorDims a (nat 0, nat 0) (nat 2, nat (0 + 2)) = a"
    by (simp add: SliceInMinorDims_def)
  also have "fst (ForEachIndex (nat 2) (qr_body_fn (nat (2 - 0)) (nat 2) HIGHEST) (QrBlock_init a)) () 0 0 =
      House_beta (column a 0) 0 2 ()"
    using qr_loop_diagonal [of 0 2 2 2 HIGHEST "QrBlock_init a" "()"]
    by (simp add: QrBlock_init_def)
  finally show ?thesis by simp
qed

text \<open>
  Claim C4 as stated fails for the identity: at pivot 0 the tail is zero and \<open>\<alpha> = 1\<close>, and
  the emitted \<open>R[0, 0] = 1\<close> has the sign of \<open>\<alpha>\<close>, not the opposite one.
\<close>

theorem BuildQrDecomposition_same_sign_counterexample:
  "\<not> isl (BuildQrDecomposition sample_builder sample_shape sample_identity 128 HIGHEST) \<and>
   0 < sample_identity () 0 0 \<and>
   0 < snd (fst (projr (BuildQrDecomposition sample_builder sample_shape sample_identity 128 HIGHEST)))
         () 0 0"
proof -
  have "\<not> isl (BuildQrDecomposition sample_builder sample_shape sample_identity 128 HIGHEST)"
    by (subst sample_BuildQrDecomposition) simp
  then show ?thesis
    by (simp add: sample_R00 sample_identity_beta sample_entries)
qed

lemma pivot_block:
  fixes block_size p :: int and j' :: nat
  assumes "1 \<le> block_size" and "int j' < p"
  defines "t \<equiv> j' div nat block_size"
  shows "int t * block_size < p"
    and "j' mod nat block_size < nat (min block_size (p - int t * block_size))"
    and "j' = nat (int t * block_size) + j' mod nat block_size"
proof -
  let ?B = "nat block_size"
  have B: "int ?B = block_size" and Bpos: "0 < ?B"
    using assms(1) by simp_all
  have tb: "int t * block_size = int (t * ?B)"
    using B by simp
  have split: "j' = t * ?B + j' mod ?B"
    unfolding t_def by simp
  have le: "t * ?B \<le> j'"
    unfolding t_def by simp
  show "int t * block_size < p"
    unfolding tb using le assms(2) by linarith
  have "j' mod ?B < ?B"
    using Bpos by simp
  moreover have "int (j' mod ?B) < p - int (t * ?B)"
    using split assms(2) by linarith
  ultimately show "j' mod ?B < nat (min block_size (p - int t * block_size))"
    unfolding tb using B by linarith
  have "nat (int t * block_size) = t * ?B"
    by (simp add: nat_mult_distrib)
  then show "j' = nat (int t * block_size) + j' mod ?B"
    using split by simp
qed

text \<open>
  Claim C4, as amended.  For every input matrix on which the block driver succeeds and every
  pivot below \<open>min m n\<close>: the pivot is the local pivot \<open>j\<close> of block number \<open>t\<close>, which starts
  at \<open>i\<close>, and the emitted \<open>R[pivot, pivot]\<close> is determined by the state of that block's panel
  before its step \<open>j\<close>, with \<open>\<alpha>\<close> its entry \<open>(j, j)\<close> and \<open>\<sigma>\<close> the value that the graph computes
  at that step for the dot product of the masked tail of its column \<open>j\<close>, the value of
  \<open>House_sigma\<close> on which the selections of \<^verbatim>\<open>House\<close> branch.  When \<open>\<sigma> \<noteq> 0\<close>,
  \<open>R[pivot, pivot] = - sign(\<alpha>) sqrt (\<alpha>\<^sup>2 + \<sigma>)\<close> has the sign opposite to that of \<open>\<alpha>\<close> (it is
  negative for \<open>\<alpha> = 0\<close>); when \<open>\<sigma> = 0\<close>, \<open>R[pivot, pivot] = \<alpha>\<close>, which has the sign of \<open>\<alpha>\<close> and
  is zero when \<open>\<alpha> = 0\<close>.
\<close>

theorem BuildQrDecomposition_diagonal_sign:
  assumes "BuildQrDecomposition builder a_shape a block_size precision = Inr ((q, r), dots)"
    and "m = GetDimension a_shape (- 2)" and "n = GetDimension a_shape (- 1)"
    and "int pivot < min m n"
  shows "let t = pivot div nat block_size;
             i = int t * block_size;
             j = pivot mod nat block_size;
             k = min block_size (min m n - i)
         in case block_states builder a_shape block_size precision a t of
              Inl e \<Rightarrow> False
            | Inr aq \<Rightarrow>
               (let panel = SliceInMinorDims (fst aq) (nat i, nat i) (nat m, nat (i + k));
                    A = fst (ForEachIndex j (qr_body_fn (nat (m - i)) (nat k) precision)
                               (QrBlock_init panel));
                    alpha = A b j j;
                    sigma = House_sigma (column A j) j (nat (m - i)) b
                in (sigma \<noteq> 0 \<longrightarrow>
                      r b pivot pivot = - sign_of alpha * sqrt (alpha\<^sup>2 + sigma) \<and>
                      (alpha < 0 \<longrightarrow> 0 < r b pivot pivot) \<and>
                      (0 \<le> alpha \<longrightarrow> r b pivot pivot < 0)) \<and>
                   (sigma = 0 \<longrightarrow> r b pivot pivot = alpha))"
proof -
  note bs = BuildQrDecomposition_Inr_loop(1) [OF assms(1)]
  obtain aq_final where l0: "BuildQrDecomposition_loop builder a_shape block_size precision 0
      (a, (\<lambda>b. IdentityMatrix (nat (GetDimension a_shape (- 2))) (nat (GetDimension a_shape (- 2))))) =
      Inr aq_final"
    using BuildQrDecomposition_Inr_loop(2) [OF assms(1)] by blast
  define t where "t = pivot div nat block_size"
  define i where "i = int t * block_size"
  define j where "j = pivot mod nat block_size"
  define k where "k = min block_size (min m n - i)"
  note pb = pivot_block [OF bs assms(4), folded t_def, folded i_def j_def]
  have ip: "i < min m n" and jk: "j < nat k" and pv: "pivot = nat i + j"
    using pb by (simp_all add: k_def)
  obtain aq where st: "block_states builder a_shape block_size precision a t = Inr aq"
    using block_states_Inr [OF bs l0, of t] ip unfolding i_def assms(2,3) by blast
  note at = BuildQrDecomposition_diagonal_sign_at [OF assms(1) st i_def assms(2,3) ip k_def jk, of b,
      folded pv]
  show ?thesis
    unfolding Let_def
    by (fold t_def, fold i_def, fold j_def k_def, simp only: st sum.case)
      (rule at [unfolded Let_def])
qed

lemma sample_beta: "House_beta (column sample_matrix 0) 0 2 () = - 5"
proof -
  have c: "column sample_matrix 0 () 0 = 3"
    by (simp add: column_def sample_entries)
  have s: "sqrt 25 = 5"
    using real_sqrt_abs [of 5] by simp
  show ?thesis
    using House_beta_sign [of 0 2 "column sample_matrix 0" "()"]
    by (simp add: sample_matrix_dot c s sign_of_def)
qed

theorem BuildQrDecomposition_diagonal_sign_witness:
  "BuildQrDecomposition sample_builder sample_shape sample_matrix 128 HIGHEST =
     Inr ((fst (fst (projr (BuildQrDecomposition sample_builder sample_shape sample_matrix 128 HIGHEST))),
           snd (fst (projr (BuildQrDecomposition sample_builder sample_shape sample_matrix 128 HIGHEST)))),
          snd (projr (BuildQrDecomposition sample_builder sample_shape sample_matrix 128 HIGHEST))) \<and>
   2 = GetDimension sample_shape (- 2) \<and> 2 = GetDimension sample_shape (- 1) \<and>
   int 0 < min 2 2 \<and>
   House_sigma (column sample_matrix 0) 0 2 () \<noteq> 0 \<and>
   0 \<le> sample_matrix () 0 0 \<and>
   snd (fst (projr (BuildQrDecomposition sample_builder sample_shape sample_matrix 128 HIGHEST))) () 0 0 =
     - 5 \<and>
   snd (fst (projr (BuildQrDecomposition sample_builder sample_shape sample_matrix 128 HIGHEST))) () 0 0 <
     0"
proof -
  let ?r = "snd (fst (projr (BuildQrDecomposition sample_builder sample_shape sample_matrix 128 HIGHEST)))"
  have ok: "BuildQrDecomposition sample_builder sample_shape sample_matrix 128 HIGHEST =
     Inr ((fst (fst (projr (BuildQrDecomposition sample_builder sample_shape sample_matrix 128 HIGHEST))),
           ?r),
          snd (projr (BuildQrDecomposition sample_builder sample_shape sample_matrix 128 HIGHEST)))"
    by (rule sample_BuildQrDecomposition)
  have m: "2 = GetDimension sample_shape (- 2)" and n: "2 = GetDimension sample_shape (- 1)"
    by (simp_all add: sample_block_dims)
  have p: "int 0 < min 2 2"
    by simp
  have sl: "SliceInMinorDims sample_matrix (0, 0) (2, 2) = sample_matrix"
    by (simp add: SliceInMinorDims_def)
  have init: "QrBlock_init sample_matrix = (sample_matrix, (\<lambda>b c. 0))"
    by (simp add: QrBlock_init_def)
  have d: "House_sigma (column sample_matrix 0) 0 2 () \<noteq> 0"
    by (simp add: House_sigma_dot sample_matrix_dot)
  have e: "0 \<le> sample_matrix () 0 0"
    by (simp add: sample_entries)
  have neg: "?r () 0 0 < 0"
    using BuildQrDecomposition_diagonal_sign [OF ok m n p, of "()"] d e
    by (simp add: Let_def sl init)
  have v: "?r () 0 0 = - 5"
    by (simp add: sample_R00 sample_beta)
  show ?thesis
    by (intro conjI ok m n p d e v neg)
qed

end
